theory Spec2Isabelle
  imports Main "HOL-Library.Word"
begin

section \<open>The engine as seen by binding.cc\<close>

text \<open>
  binding.cc drives a scripting engine through its C++ interface.  The engine itself
  (parser, compiler, executor, value conversions) is not part of the file; the model takes
  what the engine reports as data, and embeds every line of binding.cc that acts on it.
\<close>

subsection \<open>Strings handed over by the engine\<close>

text \<open>
  A \<open>const char*\<close> that the host passes in is NUL-terminated: the \<open>string\<close> that stands
  for it is the text in front of the terminator.  A script string may hold NUL bytes, and
  so may the buffer of a \<open>String::Utf8Value\<close>: its \<open>length()\<close> counts every byte, while a
  reader of its \<open>char*\<close> stops at the first NUL.  The buffer may also be missing (the
  conversion failed, or the handle converted was empty): \<open>None\<close> is the buffer whose
  pointer is NULL and whose length is 0.
\<close>

type_synonym Utf8Value = "string option"

text \<open>The text that a reader of a \<open>char*\<close> into the bytes \<open>s\<close> sees (\<open>std::string::append\<close>,
  the conversion to \<open>std::string\<close>, \<open>printf("%s")\<close>): the bytes before the first NUL.\<close>

definition c_str :: "string \<Rightarrow> string" where
  "c_str s = takeWhile (\<lambda>ch. ch \<noteq> CHR 0x00) s"

definition newline :: string where
  "newline = [CHR 0x0A]"

text \<open>
  \<open>const char* ToCString(const String::Utf8Value& value)\<close>.  Every use of the result in
  binding.cc reads it as a C string.
\<close>

definition ToCString :: "Utf8Value \<Rightarrow> string" where
  "ToCString v = (case v of Some s \<Rightarrow> c_str s | None \<Rightarrow> ''<string conversion failed>'')"

text \<open>\<open>value.length()\<close>: the number of bytes of the buffer.\<close>

definition utf8_length :: "Utf8Value \<Rightarrow> nat" where
  "utf8_length v = (case v of Some s \<Rightarrow> length s | None \<Rightarrow> 0)"

subsection \<open>\<open>snprintf(scratch, scratchSize, "%i", linenum)\<close>\<close>

definition digit_char :: "nat \<Rightarrow> char" where
  "digit_char d = ''0123456789'' ! d"

fun decimal :: "nat \<Rightarrow> string" where
  "decimal n = (if n < 10 then [digit_char n] else decimal (n div 10) @ [digit_char (n mod 10)])"

declare decimal.simps [simp del]

definition printf_i :: "int \<Rightarrow> string" where
  "printf_i n = (if n < 0 then CHR ''-'' # decimal (nat (- n)) else decimal (nat n))"

text \<open>\<open>snprintf\<close> writes at most \<open>size - 1\<close> characters and the terminating NUL.\<close>

definition snprintf_i :: "nat \<Rightarrow> int \<Rightarrow> string" where
  "snprintf_i sz n = take (sz - 1) (printf_i n)"

definition scratchSize :: nat where
  "scratchSize = 20"

subsection \<open>What a \<open>TryCatch\<close> holds after an exception\<close>

text \<open>
  \<open>Handle<Message>\<close>: the positional metadata of an error.  The engine's \<open>int\<close> is 32 bits
  wide and read as a signed number (\<open>sint\<close>).
\<close>

record Message_s =
  ResourceName :: Utf8Value
  LineNumber :: "32 word"
  SourceLine :: Utf8Value
  StartColumn :: "32 word"
  EndColumn :: "32 word"

text \<open>
  A \<open>TryCatch\<close> that has caught: the exception value converted to UTF-8, the message handle
  (\<open>None\<close> when \<open>message.IsEmpty()\<close>), the stack trace converted to UTF-8.
\<close>

record Caught =
  Exception :: Utf8Value
  Message :: "Message_s option"
  StackTrace :: Utf8Value

subsection \<open>ExceptionString\<close>

text \<open>
  The two \<open>for\<close> loops of ExceptionString, \<open>for (int i = from; i < bound; i++) out.append(piece)\<close>.
  The counter never overflows: it stops at \<open>bound\<close>, itself an \<open>int\<close>.
\<close>

function append_loop :: "int \<Rightarrow> int \<Rightarrow> string \<Rightarrow> string \<Rightarrow> string" where
  "append_loop i bound piece out =
     (if i < bound then append_loop (i + 1) bound piece (out @ piece) else out)"
  by pat_completeness auto
termination
  by (relation "measure (\<lambda>(i, bound, piece, out). nat (bound - i))") auto

declare append_loop.simps [simp del]

definition ExceptionString :: "Caught \<Rightarrow> string" where
  "ExceptionString try_catch =
     (let out = [];
          exception_string = ToCString (Exception try_catch)
      in case Message try_catch of
           None \<Rightarrow>
             (let out = out @ exception_string;
                  out = out @ newline
              in out)
         | Some message \<Rightarrow>
             (let filename_string = ToCString (ResourceName message);
                  linenum = sint (LineNumber message);
                  scratch = snprintf_i scratchSize linenum;
                  out = out @ filename_string;
                  out = out @ '':'';
                  out = out @ scratch;
                  out = out @ newline;
                  sourceline_string = ToCString (SourceLine message);
                  out = out @ sourceline_string;
                  out = out @ newline;
                  start = sint (StartColumn message);
                  out = append_loop 0 start '' '' out;
                  end_col = sint (EndColumn message);
                  out = append_loop start end_col ''^'' out;
                  out = out @ newline;
                  stack_trace = StackTrace try_catch
              in if utf8_length stack_trace > 0
                 then (let out = out @ ToCString stack_trace; out = out @ newline in out)
                 else (let out = out @ exception_string; out = out @ newline in out)))"

section \<open>Values, guest code and the engine's capabilities\<close>

text \<open>The five native callbacks that binding.cc wraps in a \<open>FunctionTemplate\<close>.\<close>

datatype FunctionTemplate = T_Print | T_Recv | T_Send | T_SendSync | T_RecvSync

text \<open>
  A script value, as far as binding.cc observes one: through \<open>IsFunction\<close>, \<open>IsString\<close>,
  \<open>Int32Value\<close> and the conversion to UTF-8.  \<open>JInteger\<close> is a number with an integral
  value, \<open>JFunction\<close> a function written in the script, \<open>JNative\<close> the function made from
  one of the templates, \<open>JOther\<close> any other value.
\<close>

datatype Value =
    JUndefined
  | JInteger int
  | JString string
  | JFunction nat
  | JNative FunctionTemplate
  | JOther nat

definition IsFunction :: "Value \<Rightarrow> bool" where
  "IsFunction v = (case v of JFunction _ \<Rightarrow> True | JNative _ \<Rightarrow> True | _ \<Rightarrow> False)"

definition IsString :: "Value \<Rightarrow> bool" where
  "IsString v = (case v of JString _ \<Rightarrow> True | _ \<Rightarrow> False)"

text \<open>\<open>args[0]\<close> of a \<open>FunctionCallbackInfo\<close>: undefined when no argument was passed.\<close>

definition arg0 :: "Value list \<Rightarrow> Value" where
  "arg0 args = (case args of [] \<Rightarrow> JUndefined | v # _ \<Rightarrow> v)"

text \<open>The attribute of a property, \<open>None\<close> being the default.\<close>

datatype PropertyAttribute = Attr_None | ReadOnly | DontEnum | DontDelete

text \<open>
  What script code does to the binding while it runs.  It acts on its own global object:
  it assigns to a property (\<open>name = v\<close>), deletes one (\<open>delete name\<close>), defines one anew
  (\<open>Object.defineProperty\<close>, with the value that a read of the new property yields), or
  puts a property on the prototype chain of the global object, where a read finds it when
  the global object has no property of that name.  Or it calls one of the five native
  functions.  Everything else a script computes stays inside the engine.
\<close>

datatype GuestOp =
    Assign string Value
  | Delete string
  | Define string Value PropertyAttribute
  | AssignInherited string Value
  | Invoke FunctionTemplate "Value list"

text \<open>
  The outcome of running script code (\<open>Script::Run\<close>, \<open>Function::Call\<close>): the operations it
  performed on the binding, in order; the value returned (\<open>None\<close> is the empty handle);
  and what the enclosing \<open>TryCatch\<close> holds afterwards (\<open>None\<close> when \<open>HasCaught()\<close> is false).
\<close>

record Ran =
  effects :: "GuestOp list"
  result :: "Value option"
  try_catch :: "Caught option"

text \<open>
  The outcome of \<open>Script::Compile\<close>: the script (\<open>None\<close> when \<open>script.IsEmpty()\<close>), given
  by what running it does, and the \<open>TryCatch\<close> after the compilation.
\<close>

record Compiled =
  script :: "Ran option"
  compile_try_catch :: "Caught option"

text \<open>
  The engine, an opaque capability: number and string conversion of values that are
  neither integers nor strings, compilation of a named source text, and the call of a
  function value on arguments.  Every property below holds for every engine.
\<close>

record Engine =
  ToInt32 :: "Value \<Rightarrow> int"
  ToUtf8 :: "Value \<Rightarrow> Utf8Value"
  Compile :: "string \<Rightarrow> string \<Rightarrow> Compiled"
  Call :: "Value \<Rightarrow> Value list \<Rightarrow> Ran"

text \<open>
  \<open>Value::Int32Value()\<close>: an integral number is reduced to 32 bits, two's complement;
  undefined converts to 0.
\<close>

definition Int32Value :: "Engine \<Rightarrow> Value \<Rightarrow> int" where
  "Int32Value E v =
     (case v of
        JInteger n \<Rightarrow> sint (word_of_int n :: 32 word)
      | JUndefined \<Rightarrow> 0
      | _ \<Rightarrow> ToInt32 E v)"

text \<open>\<open>String::Utf8Value str(v)\<close>\<close>

definition Utf8Value_of :: "Engine \<Rightarrow> Value \<Rightarrow> Utf8Value" where
  "Utf8Value_of E v = (case v of JString s \<Rightarrow> Some s | _ \<Rightarrow> ToUtf8 E v)"

subsection \<open>Global objects\<close>

type_synonym Global = "string \<rightharpoonup> (Value \<times> PropertyAttribute)"

text \<open>
  \<open>ObjectTemplate::Set(name, value, attributes = None)\<close>: binding.cc never passes the third
  argument.
\<close>

definition ObjectTemplate_Set :: "Global \<Rightarrow> string \<Rightarrow> Value \<Rightarrow> Global" where
  "ObjectTemplate_Set global name v = global(name \<mapsto> (v, Attr_None))"

section \<open>The data model of binding.cc\<close>

text \<open>
  \<open>struct context_s\<close>.  A \<open>Persistent\<close> handle is \<open>None\<close> when empty.  \<open>c_context\<close> names the
  engine context (a global scope) by its number; callbacks and the host's \<open>void*\<close> data are
  opaque numbers.
\<close>

record context_s =
  c_id :: int
  c_data :: nat
  c_context :: "nat option"
  c_cb :: nat
  c_req_cb :: nat
  c_recv :: "Value option"
  c_recv_sync_handler :: "Value option"

text \<open>
  \<open>struct worker_s\<close>.  \<open>contexts\<close> maps an \<open>int32_t\<close> to a \<open>context*\<close>, an address of the store
  below.  The \<open>isolate\<close> is the rest of the state.
\<close>

record worker_s =
  w_data :: nat
  contextIndex :: int
  last_exception :: string
  contexts :: "int \<rightharpoonup> nat"

text \<open>The three \<open>Persistent\<close> members of a \<open>context_s\<close>.\<close>

datatype PersistentField = P_context | P_recv | P_recv_sync_handler

text \<open>
  The state of one instance: the worker, the store of \<open>context_s\<close> records allocated with
  \<open>new\<close> (an address is never handed out twice, so a freed one stays recognisable), the
  global object of every engine context and the properties on its prototype chain, the
  text written to standard output, and the calls made to the host's callbacks (callback,
  message, data).

  \<open>persistent\<close> is the set of storage cells that the engine holds for \<open>Persistent\<close>
  handles, each named by the record and the member that owns it.  \<open>Reset(isolate, v)\<close>
  allocates the cell of a member, \<open>Reset()\<close> releases it, and what a cell refers to is kept
  alive by the engine as long as the cell is allocated.  The destructor of a
  \<open>Persistent\<close> releases nothing (in the engine's header the default traits have
  \<open>kResetInDestructor = false\<close>), so \<open>delete\<close> of a record leaves the cells of its
  members allocated.
\<close>

record State =
  worker :: worker_s
  heap :: "nat \<rightharpoonup> context_s"
  heap_next :: nat
  globals :: "nat \<Rightarrow> Global"
  inherited :: "nat \<Rightarrow> (string \<rightharpoonup> Value)"
  globals_next :: nat
  persistent :: "(nat \<times> PersistentField) set"
  stdout_s :: string
  host_calls :: "(nat \<times> string \<times> nat) list"

text \<open>Ways in which the process stops instead of returning.\<close>

datatype Fault =
    AssertionFailed
  | NullDereference
  | UseAfterFree
  | EmptyHandle
  | SignedOverflow

definition INT32_MAX :: int where
  "INT32_MAX = 2147483647"

text \<open>\<open>std::map::insert\<close> keeps the element already stored under the key.\<close>

definition map_insert :: "('k \<rightharpoonup> 'v) \<Rightarrow> 'k \<Rightarrow> 'v \<Rightarrow> ('k \<rightharpoonup> 'v)" where
  "map_insert m k v = (case m k of None \<Rightarrow> m(k \<mapsto> v) | Some _ \<Rightarrow> m)"

definition set_last_exception :: "string \<Rightarrow> State \<Rightarrow> State" where
  "set_last_exception text s = s\<lparr>worker := (worker s)\<lparr>last_exception := text\<rparr>\<rparr>"

section \<open>The native functions called by scripts\<close>

text \<open>
  \<open>ctx->Global()->Get(name)\<close>: the property of the global object; without one, the
  property found on the prototype chain; without that, undefined.
\<close>

definition Global_Get :: "State \<Rightarrow> nat \<Rightarrow> string \<Rightarrow> Value" where
  "Global_Get s ctx name =
     (case globals s ctx name of
        Some (v, _) \<Rightarrow> v
      | None \<Rightarrow> (case inherited s ctx name of Some v \<Rightarrow> v | None \<Rightarrow> JUndefined))"

text \<open>
  An assignment \<open>name = v\<close> by script code at global level: a read-only property keeps its
  value, any other property takes the new one, a missing property is created.
\<close>

definition Global_Assign :: "State \<Rightarrow> nat \<Rightarrow> string \<Rightarrow> Value \<Rightarrow> State" where
  "Global_Assign s ctx name v =
     (case globals s ctx name of
        None \<Rightarrow> s\<lparr>globals := (globals s)(ctx := (globals s ctx)(name \<mapsto> (v, Attr_None)))\<rparr>
      | Some (_, attr) \<Rightarrow>
          if attr = ReadOnly then s
          else s\<lparr>globals := (globals s)(ctx := (globals s ctx)(name \<mapsto> (v, attr)))\<rparr>)"

text \<open>
  \<open>delete name\<close>: the property goes, unless it was made with \<open>DontDelete\<close>.
\<close>

definition Global_Delete :: "State \<Rightarrow> nat \<Rightarrow> string \<Rightarrow> State" where
  "Global_Delete s ctx name =
     (case globals s ctx name of
        None \<Rightarrow> s
      | Some (_, attr) \<Rightarrow>
          if attr = DontDelete then s
          else s\<lparr>globals := (globals s)(ctx := (globals s ctx)(name := None))\<rparr>)"

text \<open>
  \<open>Object.defineProperty\<close> on the global object: a property that is missing or may be
  deleted is replaced by the new value with the new attribute; one made with
  \<open>DontDelete\<close> takes a new value only, and only under the same attribute.
\<close>

definition Global_Define :: "State \<Rightarrow> nat \<Rightarrow> string \<Rightarrow> Value \<Rightarrow> PropertyAttribute \<Rightarrow> State" where
  "Global_Define s ctx name v attr =
     (case globals s ctx name of
        None \<Rightarrow> s\<lparr>globals := (globals s)(ctx := (globals s ctx)(name \<mapsto> (v, attr)))\<rparr>
      | Some (_, old) \<Rightarrow>
          if old = DontDelete \<and> attr \<noteq> DontDelete then s
          else s\<lparr>globals := (globals s)(ctx := (globals s ctx)(name \<mapsto> (v, attr)))\<rparr>)"

text \<open>A property put on the prototype chain of the global object.\<close>

definition Inherited_Assign :: "State \<Rightarrow> nat \<Rightarrow> string \<Rightarrow> Value \<Rightarrow> State" where
  "Inherited_Assign s ctx name v = s\<lparr>inherited := (inherited s)(ctx := (inherited s ctx)(name \<mapsto> v))\<rparr>"

text \<open>
  The context lookup shared by \<open>Recv\<close>, \<open>RecvSync\<close>, \<open>Send\<close> and \<open>SendSync\<close>:
  \<^verbatim>\<open>int value = ctx->Global()->Get(String::NewFromUtf8(w->isolate, "$context"))->Int32Value();
  context* c = w->contexts[value];\<close>
  \<open>None\<close> is the null pointer that \<open>operator[]\<close> yields for a key not in the map (it also
  stores that null pointer under the key; every path from there ends the process, at the
  assertion or at the first use of \<open>c\<close>).
\<close>

definition current_context :: "Engine \<Rightarrow> State \<Rightarrow> nat \<Rightarrow> nat option" where
  "current_context E s ctx =
     (let value = Int32Value E (Global_Get s ctx ''$context'')
      in contexts (worker s) value)"

fun Print_loop :: "Engine \<Rightarrow> Value list \<Rightarrow> bool \<Rightarrow> string \<Rightarrow> string" where
  "Print_loop E [] first out = out"
| "Print_loop E (a # args) first out =
     Print_loop E args False ((if first then out else out @ '' '') @ ToCString (Utf8Value_of E a))"

definition Print :: "Engine \<Rightarrow> State \<Rightarrow> nat \<Rightarrow> Value list \<Rightarrow> Fault + State" where
  "Print E s ctx args = Inr (s\<lparr>stdout_s := Print_loop E args True (stdout_s s) @ newline\<rparr>)"

text \<open>
  \<open>Recv\<close> and \<open>RecvSync\<close> end with \<open>c->recv.Reset(isolate, func)\<close> and
  \<open>c->recv_sync_handler.Reset(isolate, func)\<close>: the member refers to the function, through
  a cell of the engine.
\<close>

definition Recv :: "Engine \<Rightarrow> State \<Rightarrow> nat \<Rightarrow> Value list \<Rightarrow> Fault + State" where
  "Recv E s ctx args =
     (let c = current_context E s ctx;
          v = arg0 args
      in if \<not> IsFunction v then Inl AssertionFailed
         else case c of
                None \<Rightarrow> Inl NullDereference
              | Some a \<Rightarrow>
                  (case heap s a of
                     None \<Rightarrow> Inl UseAfterFree
                   | Some r \<Rightarrow>
                       Inr (s\<lparr>heap := (heap s)(a \<mapsto> r\<lparr>c_recv := Some v\<rparr>),
                              persistent := insert (a, P_recv) (persistent s)\<rparr>)))"

definition RecvSync :: "Engine \<Rightarrow> State \<Rightarrow> nat \<Rightarrow> Value list \<Rightarrow> Fault + State" where
  "RecvSync E s ctx args =
     (let c = current_context E s ctx;
          v = arg0 args
      in if \<not> IsFunction v then Inl AssertionFailed
         else case c of
                None \<Rightarrow> Inl NullDereference
              | Some a \<Rightarrow>
                  (case heap s a of
                     None \<Rightarrow> Inl UseAfterFree
                   | Some r \<Rightarrow>
                       Inr (s\<lparr>heap := (heap s)(a \<mapsto> r\<lparr>c_recv_sync_handler := Some v\<rparr>),
                              persistent := insert (a, P_recv_sync_handler) (persistent s)\<rparr>)))"

text \<open>
  \<open>Send\<close> ends with \<open>c->cb(msg.c_str(), c->data)\<close>, the call of the host's callback, which
  is recorded.  What the host does inside its callback is outside binding.cc.
\<close>

definition Send :: "Engine \<Rightarrow> State \<Rightarrow> nat \<Rightarrow> Value list \<Rightarrow> Fault + State" where
  "Send E s ctx args =
     (let c = current_context E s ctx;
          v = arg0 args
      in if \<not> IsString v then Inl AssertionFailed
         else let msg = ToCString (Utf8Value_of E v)
              in case c of
                   None \<Rightarrow> Inl NullDereference
                 | Some a \<Rightarrow>
                     (case heap s a of
                        None \<Rightarrow> Inl UseAfterFree
                      | Some r \<Rightarrow> Inr (s\<lparr>host_calls := host_calls s @ [(c_cb r, msg, c_data r)]\<rparr>)))"

text \<open>
  \<open>SendSync\<close> calls \<open>c->req_cb(msg.c_str(), c->data)\<close> and hands the host's answer to the
  script as the return value of the call; the answer leaves no trace in the binding.
\<close>

definition SendSync :: "Engine \<Rightarrow> State \<Rightarrow> nat \<Rightarrow> Value list \<Rightarrow> Fault + State" where
  "SendSync E s ctx args =
     (let c = current_context E s ctx;
          v = arg0 args
      in if \<not> IsString v then Inl AssertionFailed
         else let msg = ToCString (Utf8Value_of E v)
              in case c of
                   None \<Rightarrow> Inl NullDereference
                 | Some a \<Rightarrow>
                     (case heap s a of
                        None \<Rightarrow> Inl UseAfterFree
                      | Some r \<Rightarrow> Inr (s\<lparr>host_calls := host_calls s @ [(c_req_cb r, msg, c_data r)]\<rparr>)))"

subsection \<open>Script code running in a context\<close>

definition guest_step :: "Engine \<Rightarrow> State \<Rightarrow> nat \<Rightarrow> GuestOp \<Rightarrow> Fault + State" where
  "guest_step E s ctx op =
     (case op of
        Assign name v \<Rightarrow> Inr (Global_Assign s ctx name v)
      | Delete name \<Rightarrow> Inr (Global_Delete s ctx name)
      | Define name v attr \<Rightarrow> Inr (Global_Define s ctx name v attr)
      | AssignInherited name v \<Rightarrow> Inr (Inherited_Assign s ctx name v)
      | Invoke T_Print args \<Rightarrow> Print E s ctx args
      | Invoke T_Recv args \<Rightarrow> Recv E s ctx args
      | Invoke T_Send args \<Rightarrow> Send E s ctx args
      | Invoke T_SendSync args \<Rightarrow> SendSync E s ctx args
      | Invoke T_RecvSync args \<Rightarrow> RecvSync E s ctx args)"

fun run_guest :: "Engine \<Rightarrow> State \<Rightarrow> nat \<Rightarrow> GuestOp list \<Rightarrow> Fault + State" where
  "run_guest E s ctx [] = Inr s"
| "run_guest E s ctx (op # ops) =
     (case guest_step E s ctx op of
        Inl f \<Rightarrow> Inl f
      | Inr s' \<Rightarrow> run_guest E s' ctx ops)"

section \<open>The functions called by the host\<close>

text \<open>\<open>worker* worker_new(void* data)\<close>: a fresh instance, with no context.\<close>

definition worker_new :: "nat \<Rightarrow> State" where
  "worker_new data =
     \<lparr>worker = \<lparr>w_data = data, contextIndex = 0, last_exception = [], contexts = Map.empty\<rparr>,
      heap = Map.empty,
      heap_next = 0,
      globals = (\<lambda>_. Map.empty),
      inherited = (\<lambda>_. Map.empty),
      globals_next = 0,
      persistent = {},
      stdout_s = [],
      host_calls = []\<rparr>"

text \<open>\<open>const char* worker_last_exception(worker* w)\<close>\<close>

definition worker_last_exception :: "State \<Rightarrow> string" where
  "worker_last_exception s = last_exception (worker s)"

text \<open>
  \<open>context* context_new(worker* w, worker_recv_cb cb, worker_recvSync_cb recvSync_cb, void* data)\<close>.
  \<open>w->contextIndex++\<close> on the largest \<open>int32_t\<close> is undefined behaviour, a fault here.
\<close>

definition context_new :: "State \<Rightarrow> nat \<Rightarrow> nat \<Rightarrow> nat \<Rightarrow> Fault + (nat \<times> State)" where
  "context_new s cb recvSync_cb data =
     (let w = worker s;
          global = Map.empty;
          global = ObjectTemplate_Set global ''$context'' (JInteger (contextIndex w));
          global = ObjectTemplate_Set global ''$print'' (JNative T_Print);
          global = ObjectTemplate_Set global ''$recv'' (JNative T_Recv);
          global = ObjectTemplate_Set global ''$send'' (JNative T_Send);
          global = ObjectTemplate_Set global ''$sendSync'' (JNative T_SendSync);
          global = ObjectTemplate_Set global ''$recvSync'' (JNative T_RecvSync);
          localContext = globals_next s;
          s = s\<lparr>globals := (globals s)(localContext := global),
                inherited := (inherited s)(localContext := Map.empty),
                globals_next := localContext + 1\<rparr>;
          c = heap_next s;
          r = \<lparr>c_id = contextIndex w, c_data = data, c_context = Some localContext,
               c_cb = cb, c_req_cb = recvSync_cb, c_recv = None, c_recv_sync_handler = None\<rparr>;
          s = s\<lparr>heap := (heap s)(c \<mapsto> r), heap_next := c + 1,
                persistent := insert (c, P_context) (persistent s)\<rparr>;
          w = w\<lparr>contexts := map_insert (contexts w) (contextIndex w) c\<rparr>
      in if contextIndex w = INT32_MAX then Inl SignedOverflow
         else Inr (c, s\<lparr>worker := w\<lparr>contextIndex := contextIndex w + 1\<rparr>\<rparr>))"

text \<open>
  \<open>void context_dispose(context* c)\<close>: \<open>c->context.Reset(); delete(c);\<close>.  The function
  receives the context only, not the worker.  \<open>Reset()\<close> empties the member and releases
  its cell; \<open>delete\<close> frees the record and releases no cell.
\<close>

definition context_dispose :: "State \<Rightarrow> nat \<Rightarrow> Fault + State" where
  "context_dispose s c =
     (case heap s c of
        None \<Rightarrow> Inl UseAfterFree
      | Some r \<Rightarrow>
          (let s = s\<lparr>heap := (heap s)(c \<mapsto> r\<lparr>c_context := None\<rparr>),
                    persistent := persistent s - {(c, P_context)}\<rparr>
           in Inr (s\<lparr>heap := (heap s)(c := None)\<rparr>)))"

text \<open>
  Entering the context of \<open>c\<close>:
  \<^verbatim>\<open>Local<Context> context = Local<Context>::New(w->isolate, c->context);
  Context::Scope context_scope(context);\<close>
\<close>

definition enter_context :: "State \<Rightarrow> nat \<Rightarrow> Fault + (context_s \<times> nat)" where
  "enter_context s c =
     (case heap s c of
        None \<Rightarrow> Inl UseAfterFree
      | Some r \<Rightarrow> (case c_context r of None \<Rightarrow> Inl EmptyHandle | Some ctx \<Rightarrow> Inr (r, ctx)))"

text \<open>\<open>int worker_load(worker* w, context *c, char* name_s, char* source_s)\<close>\<close>

definition worker_load :: "Engine \<Rightarrow> State \<Rightarrow> nat \<Rightarrow> string \<Rightarrow> string \<Rightarrow> Fault + (int \<times> State)" where
  "worker_load E s c name_s source_s =
     (case enter_context s c of
        Inl f \<Rightarrow> Inl f
      | Inr (r, ctx) \<Rightarrow>
          (let compiled = Compile E name_s source_s
           in case script compiled of
                None \<Rightarrow>
                  (case compile_try_catch compiled of
                     None \<Rightarrow> Inl AssertionFailed
                   | Some tc \<Rightarrow> Inr (1, set_last_exception (ExceptionString tc) s))
              | Some run \<Rightarrow>
                  (case run_guest E s ctx (effects run) of
                     Inl f \<Rightarrow> Inl f
                   | Inr s' \<Rightarrow>
                       (case result run of
                          None \<Rightarrow>
                            (case try_catch run of
                               None \<Rightarrow> Inl AssertionFailed
                             | Some tc \<Rightarrow> Inr (2, set_last_exception (ExceptionString tc) s'))
                        | Some _ \<Rightarrow> Inr (0, s')))))"

text \<open>
  \<open>int worker_send(worker* w, context* c, const char* msg)\<close>.  Between the construction of
  the \<open>TryCatch\<close> and \<open>assert(!try_catch.HasCaught())\<close> no script code runs, so that
  assertion holds.
\<close>

definition worker_send :: "Engine \<Rightarrow> State \<Rightarrow> nat \<Rightarrow> string \<Rightarrow> Fault + (int \<times> State)" where
  "worker_send E s c msg =
     (case enter_context s c of
        Inl f \<Rightarrow> Inl f
      | Inr (r, ctx) \<Rightarrow>
          (case c_recv r of
             None \<Rightarrow> Inr (1, set_last_exception ''$recv not called'' s)
           | Some recv \<Rightarrow>
               (let run = Call E recv [JString msg]
                in case run_guest E s ctx (effects run) of
                     Inl f \<Rightarrow> Inl f
                   | Inr s' \<Rightarrow>
                       (case try_catch run of
                          Some tc \<Rightarrow> Inr (2, set_last_exception (ExceptionString tc) s')
                        | None \<Rightarrow> Inr (0, s')))))"

text \<open>
  A \<open>const char*\<close> handed back to the host: it points into a buffer that is still alive,
  or into one that has been destroyed (\<open>Dangling\<close>, with the text the buffer held when it
  was destroyed).  Reading through the second is a use after free.
\<close>

datatype CharPtr = Alive string | Dangling string

definition read_c_str :: "CharPtr \<Rightarrow> Fault + string" where
  "read_c_str p = (case p of Alive text \<Rightarrow> Inr text | Dangling _ \<Rightarrow> Inl UseAfterFree)"

text \<open>
  \<open>const char* worker_sendSync(worker* w, context* c, const char* msg)\<close>.  \<open>out\<close> is a
  local \<open>std::string\<close>; both \<open>return out.c_str()\<close> hand back a pointer into its buffer, and
  the buffer is destroyed when the function returns.  \<open>out.append(*response)\<close> reads the
  response as a C string.  There is no \<open>TryCatch\<close>: \<open>response_value->IsString()\<close> is
  evaluated on whatever handle the call returned, and faults on the empty one.
\<close>

definition worker_sendSync :: "Engine \<Rightarrow> State \<Rightarrow> nat \<Rightarrow> string \<Rightarrow> Fault + (CharPtr \<times> State)" where
  "worker_sendSync E s c msg =
     (let out = []
      in case enter_context s c of
           Inl f \<Rightarrow> Inl f
         | Inr (r, ctx) \<Rightarrow>
             (case c_recv_sync_handler r of
                None \<Rightarrow>
                  (let out = out @ ''err: $recvSync not called''
                   in Inr (Dangling (c_str out), s))
              | Some recv_sync_handler \<Rightarrow>
                  (let run = Call E recv_sync_handler [JString msg]
                   in case run_guest E s ctx (effects run) of
                        Inl f \<Rightarrow> Inl f
                      | Inr s' \<Rightarrow>
                          (case result run of
                             None \<Rightarrow> Inl EmptyHandle
                           | Some response_value \<Rightarrow>
                               if IsString response_value
                               then (case Utf8Value_of E response_value of
                                       None \<Rightarrow> Inl NullDereference
                                     | Some response \<Rightarrow>
                                         (let out = out @ c_str response
                                          in Inr (Dangling (c_str out), s')))
                               else (let out = out @ ''err: non-string return value''
                                     in Inr (Dangling (c_str out), s'))))))"

section \<open>Sequences of host calls and sample runs\<close>

text \<open>
  The host creating and disposing contexts on one instance.  A run returns the \<open>id\<close> field
  of every context it created, in the order of creation.
\<close>

datatype Lifecycle = Create nat nat nat | Dispose nat

fun run_lifecycle :: "State \<Rightarrow> Lifecycle list \<Rightarrow> Fault + (int list \<times> State)" where
  "run_lifecycle s [] = Inr ([], s)"
| "run_lifecycle s (Create cb recvSync_cb data # calls) =
     (case context_new s cb recvSync_cb data of
        Inl f \<Rightarrow> Inl f
      | Inr (c, s1) \<Rightarrow>
          (case heap s1 c of
             None \<Rightarrow> Inl UseAfterFree
           | Some r \<Rightarrow>
               (case run_lifecycle s1 calls of
                  Inl f \<Rightarrow> Inl f
                | Inr (ids, s2) \<Rightarrow> Inr (c_id r # ids, s2))))"
| "run_lifecycle s (Dispose c # calls) =
     (case context_dispose s c of
        Inl f \<Rightarrow> Inl f
      | Inr s1 \<Rightarrow> run_lifecycle s1 calls)"

text \<open>
  A sample engine for the example runs.  Its scripts: a source text that registers function
  10 as the asynchronous and function 20 as the synchronous handler; a source text that
  throws; every other source text fails to compile.  Its functions: function 10 passes its
  argument on to the host with the send function, function 20 returns its argument,
  function 30 returns a number, function 50 returns a string of four characters of which
  the third is NUL, every other function throws.
\<close>

definition sample_caught :: Caught where
  "sample_caught = \<lparr>Exception = Some ''Error: boom'', Message = None, StackTrace = None\<rparr>"

definition sample_engine :: Engine where
  "sample_engine =
     \<lparr>ToInt32 = (\<lambda>v. 0),
      ToUtf8 = (\<lambda>v. None),
      Compile = (\<lambda>name source.
        if source = ''$recv(f10); $recvSync(f20)''
        then \<lparr>script = Some \<lparr>effects = [Invoke T_Recv [JFunction 10], Invoke T_RecvSync [JFunction 20]],
                              result = Some JUndefined, try_catch = None\<rparr>,
              compile_try_catch = None\<rparr>
        else if source = ''throw new Error()''
        then \<lparr>script = Some \<lparr>effects = [], result = None, try_catch = Some sample_caught\<rparr>,
              compile_try_catch = None\<rparr>
        else \<lparr>script = None, compile_try_catch = Some sample_caught\<rparr>),
      Call = (\<lambda>f args.
        if f = JFunction 10
        then \<lparr>effects = [Invoke T_Send args], result = Some JUndefined, try_catch = None\<rparr>
        else if f = JFunction 20
        then \<lparr>effects = [], result = Some (arg0 args), try_catch = None\<rparr>
        else if f = JFunction 30
        then \<lparr>effects = [], result = Some (JInteger 7), try_catch = None\<rparr>
        else if f = JFunction 50
        then \<lparr>effects = [], result = Some (JString (''ab'' @ [CHR 0x00] @ ''c'')), try_catch = None\<rparr>
        else \<lparr>effects = [], result = None, try_catch = Some sample_caught\<rparr>)\<rparr>"

text \<open>The \<open>context_s\<close> record that \<open>context_new\<close> makes for id \<open>i\<close> with callbacks 11, 12 and data 13.\<close>

definition sample_record :: "int \<Rightarrow> nat \<Rightarrow> context_s" where
  "sample_record i ctx =
     \<lparr>c_id = i, c_data = 13, c_context = Some ctx, c_cb = 11, c_req_cb = 12,
      c_recv = None, c_recv_sync_handler = None\<rparr>"

text \<open>An instance with one context, and one with two.\<close>

definition one_context :: State where
  "one_context = snd (projr (context_new (worker_new 0) 11 12 13))"

definition two_contexts :: State where
  "two_contexts = snd (projr (context_new one_context 11 12 13))"

text \<open>
  The instance with one context after its script has registered functions 10 and 20, and
  after a script has registered function 40 (which throws) and function 30 (which returns a
  number).
\<close>

definition loaded :: State where
  "loaded = snd (projr (worker_load sample_engine one_context 0 ''main.js'' ''$recv(f10); $recvSync(f20)''))"

definition failing :: State where
  "failing = projr (run_guest sample_engine one_context 0
                      [Invoke T_Recv [JFunction 40], Invoke T_RecvSync [JFunction 30]])"

text \<open>
  The instance with two contexts after the script of the second context (id 1) has
  registered functions 10 and 20; and that instance after the script of the first context
  (id 0) has assigned 1 to its own global \<open>$context\<close> and then registered function 40.
\<close>

definition two_registered :: State where
  "two_registered = projr (run_guest sample_engine two_contexts 1
                             [Invoke T_Recv [JFunction 10], Invoke T_RecvSync [JFunction 20]])"

definition hijacked :: State where
  "hijacked = projr (run_guest sample_engine two_registered 0
                       [Assign ''$context'' (JInteger 1), Invoke T_Recv [JFunction 40]])"

text \<open>
  The instance with one context after its script has registered function 40 (which
  throws) as the synchronous handler, and after it has registered function 50 (which
  returns a string with a NUL in it).
\<close>

definition sync_throws :: State where
  "sync_throws = projr (run_guest sample_engine one_context 0 [Invoke T_RecvSync [JFunction 40]])"

definition sync_nul :: State where
  "sync_nul = projr (run_guest sample_engine one_context 0 [Invoke T_RecvSync [JFunction 50]])"

text \<open>
  The instance with two contexts, the second with its handlers registered, after the
  script of the second context (id 1) has deleted its own global \<open>$context\<close> and then
  registered function 40.
\<close>

definition misdirected :: State where
  "misdirected = projr (run_guest sample_engine two_registered 1
                          [Delete ''$context'', Invoke T_Recv [JFunction 40]])"


section \<open>Properties\<close>

subsection \<open>Decimal printing fits the scratch buffer\<close>

lemma length_decimal: "0 < k \<Longrightarrow> n < 10 ^ k \<Longrightarrow> length (decimal n) \<le> k"
proof (induction k arbitrary: n)
  case 0
  then show ?case by simp
next
  case (Suc k)
  show ?case
  proof (cases "n < 10")
    case True
    then show ?thesis by (simp add: decimal.simps [of n])
  next
    case False
    then have k: "0 < k" using Suc.prems by (cases k) auto
    have "n div 10 < 10 ^ k" using Suc.prems by (simp add: less_mult_imp_div_less)
    then have "length (decimal (n div 10)) \<le> k" using Suc.IH k by blast
    then show ?thesis using False by (simp add: decimal.simps [of n])
  qed
qed

lemma length_printf_i: "- (2 ^ 31) \<le> n \<Longrightarrow> n < 2 ^ 31 \<Longrightarrow> length (printf_i n) \<le> 11"
proof -
  assume lo: "- (2 ^ 31) \<le> n" and hi: "n < 2 ^ 31"
  have "nat \<bar>n\<bar> < 10 ^ 10" using lo hi by simp
  then have "length (decimal (nat \<bar>n\<bar>)) \<le> 10"
    by (intro length_decimal) simp_all
  then show ?thesis by (auto simp: printf_i_def abs_if split: if_splits)
qed

lemma snprintf_i_sint: "snprintf_i scratchSize (sint (x :: 32 word)) = printf_i (sint x)"
proof -
  have "- (2 ^ 31) \<le> sint x" using sint_ge [of x] by simp
  moreover have "sint x < 2 ^ 31" using sint_lt [of x] by simp
  ultimately have "length (printf_i (sint x)) \<le> 11" by (rule length_printf_i)
  then show ?thesis by (simp add: snprintf_i_def scratchSize_def)
qed

lemma append_loop_replicate:
  "append_loop i bound [c] out = out @ replicate (nat (bound - i)) c"
proof (induction i bound "[c]" out rule: append_loop.induct)
  case (1 i bound out)
  show ?case
  proof (cases "i < bound")
    case True
    then have "nat (bound - i) = Suc (nat (bound - (i + 1)))" by simp
    with True "1" show ?thesis
      by (simp add: append_loop.simps [of i] replicate_append_same)
  next
    case False
    then show ?thesis by (simp add: append_loop.simps [of i])
  qed
qed

subsection \<open>The exception formatter\<close>

text \<open>
  C7, as the code has it.  Every text below is read as a C string, that is up to its first
  NUL byte, and a text whose conversion failed reads \<open><string conversion failed>\<close>.
  Without positional metadata (the message handle is empty) ExceptionString returns the
  exception text and a newline.  With metadata it returns, in this order: the resource
  name, a colon, the line number in decimal and a newline; the source line and a newline;
  the underline, made of as many spaces as the start column and as many carets as the end
  column minus the start column, and a newline; then the stack trace text when the stack
  trace has at least one byte, else the exception text again; and a last newline.
\<close>

theorem ExceptionString_format:
  "(let cut = takeWhile (\<lambda>ch. ch \<noteq> CHR 0x00);
        text = (\<lambda>v. case v of None \<Rightarrow> ''<string conversion failed>'' | Some s \<Rightarrow> cut s);
        nl = [CHR 0x0A]
    in (Message tc = None \<longrightarrow> ExceptionString tc = text (Exception tc) @ nl) \<and>
       (\<forall>m. Message tc = Some m \<longrightarrow>
          ExceptionString tc =
            text (ResourceName m) @ '':'' @ printf_i (sint (LineNumber m)) @ nl
            @ text (SourceLine m) @ nl
            @ replicate (nat (sint (StartColumn m))) CHR '' ''
            @ replicate (nat (sint (EndColumn m) - sint (StartColumn m))) CHR ''^'' @ nl
            @ (case StackTrace tc of
                 Some (ch # rest) \<Rightarrow> cut (ch # rest)
               | _ \<Rightarrow> text (Exception tc))
            @ nl))"
  by (auto simp: ExceptionString_def Let_def snprintf_i_sint append_loop_replicate utf8_length_def
        ToCString_def c_str_def newline_def split: option.splits list.splits)

theorem ExceptionString_format_witness:
  "ExceptionString \<lparr>Exception = Some ''boom'', Message = None, StackTrace = None\<rparr>
     = ''boom'' @ [CHR 0x0A] \<and>
   ExceptionString
     \<lparr>Exception = Some ''ReferenceError: x is not defined'',
      Message = Some \<lparr>ResourceName = Some ''a.js'', LineNumber = 12, SourceLine = Some ''1 + x'',
                      StartColumn = 4, EndColumn = 5\<rparr>,
      StackTrace = Some []\<rparr>
     = ''a.js:12'' @ [CHR 0x0A] @ ''1 + x'' @ [CHR 0x0A] @ ''    ^'' @ [CHR 0x0A]
       @ ''ReferenceError: x is not defined'' @ [CHR 0x0A] \<and>
   ExceptionString
     \<lparr>Exception = Some ''Error: x'',
      Message = Some \<lparr>ResourceName = None, LineNumber = 12, SourceLine = Some ''1 + x'',
                      StartColumn = 4, EndColumn = 5\<rparr>,
      StackTrace = Some (''at f'' @ [CHR 0x00] @ ''rest'')\<rparr>
     = ''<string conversion failed>:12'' @ [CHR 0x0A] @ ''1 + x'' @ [CHR 0x0A] @ ''    ^'' @ [CHR 0x0A]
       @ ''at f'' @ [CHR 0x0A]"
proof -
  have digits: "printf_i 12 = ''12''"
    by (simp add: printf_i_def decimal.simps digit_char_def)
  have spaces: "replicate 4 CHR '' '' = ''    ''"
    by (simp add: numeral_eq_Suc)
  have a: "ExceptionString \<lparr>Exception = Some ''boom'', Message = None, StackTrace = None\<rparr>
     = ''boom'' @ [CHR 0x0A]"
    using ExceptionString_format [of "\<lparr>Exception = Some ''boom'', Message = None, StackTrace = None\<rparr>"]
    by (simp add: Let_def)
  have b: "ExceptionString
     \<lparr>Exception = Some ''ReferenceError: x is not defined'',
      Message = Some \<lparr>ResourceName = Some ''a.js'', LineNumber = 12, SourceLine = Some ''1 + x'',
                      StartColumn = 4, EndColumn = 5\<rparr>,
      StackTrace = Some []\<rparr>
     = ''a.js:12'' @ [CHR 0x0A] @ ''1 + x'' @ [CHR 0x0A] @ ''    ^'' @ [CHR 0x0A]
       @ ''ReferenceError: x is not defined'' @ [CHR 0x0A]"
    using ExceptionString_format [of "\<lparr>Exception = Some ''ReferenceError: x is not defined'',
        Message = Some \<lparr>ResourceName = Some ''a.js'', LineNumber = 12, SourceLine = Some ''1 + x'',
                        StartColumn = 4, EndColumn = 5\<rparr>,
        StackTrace = Some []\<rparr>"]
    by (simp add: Let_def digits spaces)
  have c: "ExceptionString
     \<lparr>Exception = Some ''Error: x'',
      Message = Some \<lparr>ResourceName = None, LineNumber = 12, SourceLine = Some ''1 + x'',
                      StartColumn = 4, EndColumn = 5\<rparr>,
      StackTrace = Some (''at f'' @ [CHR 0x00] @ ''rest'')\<rparr>
     = ''<string conversion failed>:12'' @ [CHR 0x0A] @ ''1 + x'' @ [CHR 0x0A] @ ''    ^'' @ [CHR 0x0A]
       @ ''at f'' @ [CHR 0x0A]"
    using ExceptionString_format [of "\<lparr>Exception = Some ''Error: x'',
        Message = Some \<lparr>ResourceName = None, LineNumber = 12, SourceLine = Some ''1 + x'',
                        StartColumn = 4, EndColumn = 5\<rparr>,
        StackTrace = Some (''at f'' @ [CHR 0x00] @ ''rest'')\<rparr>"]
    by (simp add: Let_def digits spaces)
  from a b c show ?thesis by blast
qed

text \<open>
  Two inputs at which the output is not the list of parts alone.  With a source line and an
  underline, the output has a newline after each of them and at the end.  With a stack
  trace of five bytes whose first byte is NUL, the last part is neither the stack trace
  nor the exception text: it is empty.
\<close>

theorem ExceptionString_not_the_parts_alone:
  "ExceptionString
     \<lparr>Exception = Some ''ReferenceError: x is not defined'',
      Message = Some \<lparr>ResourceName = Some ''a.js'', LineNumber = 12, SourceLine = Some ''1 + x'',
                      StartColumn = 4, EndColumn = 5\<rparr>,
      StackTrace = Some []\<rparr>
     \<noteq> ''a.js:12'' @ [CHR 0x0A] @ ''1 + x'' @ ''    ^'' @ ''ReferenceError: x is not defined'' \<and>
   ExceptionString
     \<lparr>Exception = Some ''Error: x'',
      Message = Some \<lparr>ResourceName = Some ''a.js'', LineNumber = 12, SourceLine = Some ''1 + x'',
                      StartColumn = 4, EndColumn = 5\<rparr>,
      StackTrace = Some ([CHR 0x00] @ ''at f'')\<rparr>
     = ''a.js:12'' @ [CHR 0x0A] @ ''1 + x'' @ [CHR 0x0A] @ ''    ^'' @ [CHR 0x0A] @ [CHR 0x0A]"
proof -
  have digits: "decimal 12 = ''12''"
    by (simp add: decimal.simps digit_char_def)
  have loops: "append_loop 0 4 '' '' out = out @ ''    ''" "append_loop 4 5 ''^'' out = out @ ''^''" for out
    by (simp_all add: append_loop_replicate numeral_eq_Suc)
  show ?thesis
    by (simp add: ExceptionString_def Let_def ToCString_def c_str_def utf8_length_def newline_def
        snprintf_i_def scratchSize_def printf_i_def digits loops)
qed

subsection \<open>Script code and the worker record\<close>







lemma Recv_worker: "Recv E s ctx args = Inr s' \<Longrightarrow> worker s' = worker s"
  unfolding Recv_def Let_def by (auto split: if_splits option.splits)

lemma RecvSync_worker: "RecvSync E s ctx args = Inr s' \<Longrightarrow> worker s' = worker s"
  unfolding RecvSync_def Let_def by (auto split: if_splits option.splits)

lemma Send_worker: "Send E s ctx args = Inr s' \<Longrightarrow> worker s' = worker s"
  unfolding Send_def Let_def by (auto split: if_splits option.splits)

lemma SendSync_worker: "SendSync E s ctx args = Inr s' \<Longrightarrow> worker s' = worker s"
  unfolding SendSync_def Let_def by (auto split: if_splits option.splits)

lemma Print_worker: "Print E s ctx args = Inr s' \<Longrightarrow> worker s' = worker s"
  unfolding Print_def by auto

lemma Global_Assign_worker: "worker (Global_Assign s ctx name v) = worker s"
  unfolding Global_Assign_def by (simp split: option.splits prod.splits)

lemma Global_Delete_worker: "worker (Global_Delete s ctx name) = worker s"
  unfolding Global_Delete_def by (simp split: option.splits prod.splits)

lemma Global_Define_worker: "worker (Global_Define s ctx name v attr) = worker s"
  unfolding Global_Define_def by (simp split: option.splits prod.splits)

lemma Inherited_Assign_worker: "worker (Inherited_Assign s ctx name v) = worker s"
  unfolding Inherited_Assign_def by simp

lemma guest_step_worker: "guest_step E s ctx op = Inr s' \<Longrightarrow> worker s' = worker s"
proof (cases op)
  case (Assign name v)
  assume "guest_step E s ctx op = Inr s'"
  with Assign show ?thesis by (auto simp: guest_step_def Global_Assign_worker)
next
  case (Delete name)
  assume "guest_step E s ctx op = Inr s'"
  with Delete show ?thesis by (auto simp: guest_step_def Global_Delete_worker)
next
  case (Define name v attr)
  assume "guest_step E s ctx op = Inr s'"
  with Define show ?thesis by (auto simp: guest_step_def Global_Define_worker)
next
  case (AssignInherited name v)
  assume "guest_step E s ctx op = Inr s'"
  with AssignInherited show ?thesis by (auto simp: guest_step_def Inherited_Assign_worker)
next
  case (Invoke f args)
  assume "guest_step E s ctx op = Inr s'"
  with Invoke show ?thesis
    by (cases f)
      (simp_all add: guest_step_def Recv_worker RecvSync_worker Send_worker SendSync_worker
        Print_worker)
qed

lemma run_guest_worker: "run_guest E s ctx ops = Inr s' \<Longrightarrow> worker s' = worker s"
proof (induction ops arbitrary: s)
  case Nil
  then show ?case by simp
next
  case (Cons op ops)
  then obtain s1 where step: "guest_step E s ctx op = Inr s1" and rest: "run_guest E s1 ctx ops = Inr s'"
    by (auto split: sum.splits)
  from Cons.IH [OF rest] guest_step_worker [OF step] show ?case by simp
qed

lemma run_guest_append:
  "run_guest E s ctx (xs @ ys) =
     (case run_guest E s ctx xs of Inl f \<Rightarrow> Inl f | Inr s1 \<Rightarrow> run_guest E s1 ctx ys)"
  by (induction xs arbitrary: s) (simp_all split: sum.splits)

lemma Global_Get_fields [simp]:
  "Global_Get (s\<lparr>heap := h\<rparr>) ctx name = Global_Get s ctx name"
  "Global_Get (s\<lparr>host_calls := hc\<rparr>) ctx name = Global_Get s ctx name"
  "Global_Get (s\<lparr>stdout_s := out\<rparr>) ctx name = Global_Get s ctx name"
  "Global_Get (s\<lparr>persistent := ps\<rparr>) ctx name = Global_Get s ctx name"
  "Global_Get (s\<lparr>worker := w\<rparr>) ctx name = Global_Get s ctx name"
  by (simp_all add: Global_Get_def cong: option.case_cong)

lemma current_context_heap_update [simp]:
  "current_context E (s\<lparr>heap := h\<rparr>) ctx = current_context E s ctx"
  by (simp add: current_context_def)

lemma current_context_fields [simp]:
  "current_context E (s\<lparr>host_calls := hc\<rparr>) ctx = current_context E s ctx"
  "current_context E (s\<lparr>stdout_s := out\<rparr>) ctx = current_context E s ctx"
  "current_context E (s\<lparr>persistent := ps\<rparr>) ctx = current_context E s ctx"
  by (simp_all add: current_context_def)

lemma set_last_exception_fields [simp]:
  "heap (set_last_exception text s) = heap s"
  "globals (set_last_exception text s) = globals s"
  "host_calls (set_last_exception text s) = host_calls s"
  "persistent (set_last_exception text s) = persistent s"
  "contexts (worker (set_last_exception text s)) = contexts (worker s)"
  "last_exception (worker (set_last_exception text s)) = text"
  by (simp_all add: set_last_exception_def)

lemma set_last_exception_enter [simp]:
  "enter_context (set_last_exception text s) c = enter_context s c"
  by (simp add: enter_context_def)

lemma set_last_exception_current [simp]:
  "current_context E (set_last_exception text s) ctx = current_context E s ctx"
  by (simp add: current_context_def set_last_exception_def)

lemma Global_Assign_other:
  "name \<noteq> name' \<Longrightarrow> globals (Global_Assign s ctx name v) ctx name' = globals s ctx name'"
  by (simp add: Global_Assign_def split: option.splits prod.splits)

lemma Global_Assign_heap [simp]: "heap (Global_Assign s ctx name v) = heap s"
  by (simp add: Global_Assign_def split: option.splits prod.splits)

lemma Global_Assign_heap_update:
  "Global_Assign (s\<lparr>heap := h\<rparr>) ctx name v = (Global_Assign s ctx name v)\<lparr>heap := h\<rparr>"
  by (simp add: Global_Assign_def split: option.splits prod.splits)

lemma Global_Assign_inherited [simp]: "inherited (Global_Assign s ctx name v) = inherited s"
  by (simp add: Global_Assign_def split: option.splits prod.splits)

lemma current_context_Assign:
  "name \<noteq> ''$context'' \<Longrightarrow>
   current_context E (Global_Assign s ctx name v) ctx = current_context E s ctx"
  by (simp add: current_context_def Global_Get_def Global_Assign_other Global_Assign_worker
      cong: option.case_cong)

lemma Recv_registered:
  "current_context E s ctx = Some a \<Longrightarrow> heap s a = Some r \<Longrightarrow> IsFunction (arg0 args) \<Longrightarrow>
   Recv E s ctx args =
     Inr (s\<lparr>heap := (heap s)(a \<mapsto> r\<lparr>c_recv := Some (arg0 args)\<rparr>),
            persistent := insert (a, P_recv) (persistent s)\<rparr>)"
  by (simp add: Recv_def Let_def)

lemma RecvSync_registered:
  "current_context E s ctx = Some a \<Longrightarrow> heap s a = Some r \<Longrightarrow> IsFunction (arg0 args) \<Longrightarrow>
   RecvSync E s ctx args =
     Inr (s\<lparr>heap := (heap s)(a \<mapsto> r\<lparr>c_recv_sync_handler := Some (arg0 args)\<rparr>),
            persistent := insert (a, P_recv_sync_handler) (persistent s)\<rparr>)"
  by (simp add: RecvSync_def Let_def)

lemma register_both:
  assumes "current_context E s ctx = Some a" and "heap s a = Some r"
  shows "run_guest E s ctx [Invoke T_Recv [JFunction f], Invoke T_RecvSync [JFunction g]] =
     Inr (s\<lparr>heap := (heap s)(a \<mapsto> r\<lparr>c_recv := Some (JFunction f),
                                       c_recv_sync_handler := Some (JFunction g)\<rparr>),
            persistent := insert (a, P_recv_sync_handler) (insert (a, P_recv) (persistent s))\<rparr>)"
  using assms
  by (simp add: guest_step_def Recv_registered [where a = a and r = r]
      RecvSync_registered [where a = a and r = "r\<lparr>c_recv := Some (JFunction f)\<rparr>"]
      IsFunction_def arg0_def)

lemma Send_delivered:
  assumes "current_context E s ctx = Some a" and "heap s a = Some r"
  shows "run_guest E s ctx [Invoke T_Send [JString msg]] =
           Inr (s\<lparr>host_calls := host_calls s @ [(c_cb r, c_str msg, c_data r)]\<rparr>)"
  using assms
  by (simp add: guest_step_def Send_def Let_def IsString_def arg0_def Utf8Value_of_def ToCString_def)

lemma c_str_plain [simp]:
  "c_str ''ping'' = ''ping''" "c_str ''abc'' = ''abc''" "c_str ''Error: boom'' = ''Error: boom''"
  by (simp_all add: c_str_def)

subsection \<open>What \<open>context_new\<close> and \<open>context_dispose\<close> do\<close>

lemma context_new_Inr:
  assumes "contextIndex (worker s) \<noteq> INT32_MAX"
  shows "context_new s cb recvSync_cb data =
     Inr (heap_next s,
          s\<lparr>globals := (globals s)(globals_next s :=
                 [''$context'' \<mapsto> (JInteger (contextIndex (worker s)), Attr_None),
                  ''$print'' \<mapsto> (JNative T_Print, Attr_None),
                  ''$recv'' \<mapsto> (JNative T_Recv, Attr_None),
                  ''$send'' \<mapsto> (JNative T_Send, Attr_None),
                  ''$sendSync'' \<mapsto> (JNative T_SendSync, Attr_None),
                  ''$recvSync'' \<mapsto> (JNative T_RecvSync, Attr_None)]),
            inherited := (inherited s)(globals_next s := Map.empty),
            globals_next := globals_next s + 1,
            heap := (heap s)(heap_next s \<mapsto>
                 \<lparr>c_id = contextIndex (worker s), c_data = data, c_context = Some (globals_next s),
                  c_cb = cb, c_req_cb = recvSync_cb, c_recv = None, c_recv_sync_handler = None\<rparr>),
            heap_next := heap_next s + 1,
            persistent := insert (heap_next s, P_context) (persistent s),
            worker := (worker s)
               \<lparr>contexts := map_insert (contexts (worker s)) (contextIndex (worker s)) (heap_next s),
                contextIndex := contextIndex (worker s) + 1\<rparr>\<rparr>)"
  using assms by (simp add: context_new_def Let_def ObjectTemplate_Set_def)

lemma context_new_overflow:
  "contextIndex (worker s) = INT32_MAX \<Longrightarrow> context_new s cb recvSync_cb data = Inl SignedOverflow"
  by (simp add: context_new_def Let_def)

lemma context_new_returns:
  assumes "contextIndex (worker s) \<noteq> INT32_MAX"
  obtains s1 r where "context_new s cb recvSync_cb data = Inr (heap_next s, s1)"
    and "heap s1 (heap_next s) = Some r" and "c_id r = contextIndex (worker s)"
    and "heap_next s1 = heap_next s + 1" and "contextIndex (worker s1) = contextIndex (worker s) + 1"
  using context_new_Inr [OF assms, of cb recvSync_cb data] by simp

lemma context_new_id:
  assumes "context_new s cb recvSync_cb data = Inr (c, s1)" and "heap s1 c = Some r"
  shows "c_id r = contextIndex (worker s)" and "contextIndex (worker s1) = contextIndex (worker s) + 1"
proof -
  from assms(1) have ok: "contextIndex (worker s) \<noteq> INT32_MAX"
    by (auto simp: context_new_overflow)
  from assms show "c_id r = contextIndex (worker s)"
    unfolding context_new_Inr [OF ok] by auto
  from assms show "contextIndex (worker s1) = contextIndex (worker s) + 1"
    unfolding context_new_Inr [OF ok] by auto
qed

lemma context_new_last_exception:
  "context_new s cb recvSync_cb data = Inr (c, s') \<Longrightarrow>
   last_exception (worker s') = last_exception (worker s)"
  by (cases "contextIndex (worker s) = INT32_MAX")
    (auto simp: context_new_overflow context_new_Inr)

lemma context_dispose_Inr:
  "context_dispose s c = Inr s' \<Longrightarrow>
   s' = s\<lparr>heap := (heap s)(c := None), persistent := persistent s - {(c, P_context)}\<rparr>"
  by (auto simp: context_dispose_def Let_def split: option.splits)

lemma context_dispose_worker: "context_dispose s c = Inr s' \<Longrightarrow> worker s' = worker s"
  by (auto dest: context_dispose_Inr)

lemma Int32Value_in_range:
  "- (2 ^ 31) \<le> n \<Longrightarrow> n < 2 ^ 31 \<Longrightarrow> Int32Value E (JInteger n) = n"
  by (simp add: Int32Value_def sint_sbintrunc' signed_take_bit_int_eq_self)

text \<open>
  The state that \<open>context_new\<close> leaves behind is one in which the identity field of the
  new scope resolves to the new record, provided the counter is an \<open>int32_t\<close> value not yet
  in the registry.
\<close>

lemma context_new_current:
  assumes new: "context_new s cb recvSync_cb data = Inr (c, s')"
    and fresh: "contexts (worker s) (contextIndex (worker s)) = None"
    and range: "- (2 ^ 31) \<le> contextIndex (worker s)" "contextIndex (worker s) < 2 ^ 31"
  shows "current_context E s' (globals_next s) = Some c"
proof -
  from new have ok: "contextIndex (worker s) \<noteq> INT32_MAX"
    by (auto simp: context_new_overflow)
  from new [unfolded context_new_Inr [OF ok]] fresh show ?thesis
    by (auto simp: current_context_def Global_Get_def Int32Value_in_range [OF range] map_insert_def)
qed

subsection \<open>The sample runs\<close>

lemma one_context_eq:
  "context_new (worker_new 0) 11 12 13 = Inr (0, one_context)"
  by (simp add: one_context_def context_new_Inr worker_new_def INT32_MAX_def)

lemma one_context_worker:
  "worker one_context = \<lparr>w_data = 0, contextIndex = 1, last_exception = [], contexts = [0 \<mapsto> 0]\<rparr>"
  by (simp add: one_context_def context_new_Inr worker_new_def INT32_MAX_def map_insert_def)

lemma one_context_heap: "heap one_context = [0 \<mapsto> sample_record 0 0]"
  by (simp add: one_context_def context_new_Inr worker_new_def INT32_MAX_def sample_record_def)

lemma one_context_global:
  "globals one_context 0 ''$context'' = Some (JInteger 0, Attr_None)"
  by (simp add: one_context_def context_new_Inr worker_new_def INT32_MAX_def)

lemma one_context_next: "heap_next one_context = 1" "globals_next one_context = 1"
  by (simp_all add: one_context_def context_new_Inr worker_new_def INT32_MAX_def)



lemma one_context_enter: "enter_context one_context 0 = Inr (sample_record 0 0, 0)"
  by (simp add: enter_context_def one_context_heap sample_record_def)

lemma one_context_current: "current_context E one_context 0 = Some 0"
  by (simp add: current_context_def Global_Get_def one_context_global Int32Value_def one_context_worker)

lemma two_contexts_eq:
  "context_new one_context 11 12 13 = Inr (1, two_contexts)"
  by (simp add: two_contexts_def context_new_Inr one_context_worker one_context_next INT32_MAX_def)

lemma two_contexts_worker:
  "worker two_contexts = \<lparr>w_data = 0, contextIndex = 2, last_exception = [], contexts = [0 \<mapsto> 0, 1 \<mapsto> 1]\<rparr>"
  by (simp add: two_contexts_def context_new_Inr one_context_worker one_context_next INT32_MAX_def map_insert_def)

lemma two_contexts_heap: "heap two_contexts = [0 \<mapsto> sample_record 0 0, 1 \<mapsto> sample_record 1 1]"
  by (simp add: two_contexts_def context_new_Inr one_context_worker one_context_next INT32_MAX_def
      one_context_heap sample_record_def)

lemma two_contexts_global:
  "globals two_contexts 0 ''$context'' = Some (JInteger 0, Attr_None)"
  "globals two_contexts 1 ''$context'' = Some (JInteger 1, Attr_None)"
  by (simp_all add: two_contexts_def context_new_Inr one_context_worker one_context_next INT32_MAX_def
      one_context_global)

lemma two_contexts_current:
  "current_context E two_contexts 0 = Some 0" "current_context E two_contexts 1 = Some 1"
proof -
  show "current_context E two_contexts 0 = Some 0"
    by (simp add: current_context_def Global_Get_def two_contexts_global Int32Value_def
        two_contexts_worker)
  have "globals two_contexts (Suc 0) ''$context'' = Some (JInteger 1, Attr_None)"
    using two_contexts_global(2) by simp
  then show "current_context E two_contexts 1 = Some 1"
    by (simp add: current_context_def Global_Get_def Int32Value_def two_contexts_worker)
qed

lemma sample_compile:
  "Compile sample_engine name ''$recv(f10); $recvSync(f20)'' =
     \<lparr>script = Some \<lparr>effects = [Invoke T_Recv [JFunction 10], Invoke T_RecvSync [JFunction 20]],
                       result = Some JUndefined, try_catch = None\<rparr>,
      compile_try_catch = None\<rparr>"
  "Compile sample_engine name ''throw new Error()'' =
     \<lparr>script = Some \<lparr>effects = [], result = None, try_catch = Some sample_caught\<rparr>,
      compile_try_catch = None\<rparr>"
  "Compile sample_engine name ''var ='' = \<lparr>script = None, compile_try_catch = Some sample_caught\<rparr>"
  by (simp_all add: sample_engine_def)

lemma sample_call:
  "Call sample_engine (JFunction 10) args =
     \<lparr>effects = [Invoke T_Send args], result = Some JUndefined, try_catch = None\<rparr>"
  "Call sample_engine (JFunction 20) args = \<lparr>effects = [], result = Some (arg0 args), try_catch = None\<rparr>"
  "Call sample_engine (JFunction 30) args = \<lparr>effects = [], result = Some (JInteger 7), try_catch = None\<rparr>"
  "Call sample_engine (JFunction 40) args = \<lparr>effects = [], result = None, try_catch = Some sample_caught\<rparr>"
  "Call sample_engine (JFunction 50) args =
     \<lparr>effects = [], result = Some (JString (''ab'' @ [CHR 0x00] @ ''c'')), try_catch = None\<rparr>"
  by (simp_all add: sample_engine_def)

lemma sample_caught_text: "ExceptionString sample_caught = ''Error: boom'' @ newline"
  by (simp add: ExceptionString_def sample_caught_def ToCString_def c_str_def)

lemma one_context_register:
  "run_guest E one_context 0 [Invoke T_Recv [JFunction f], Invoke T_RecvSync [JFunction g]] =
     Inr (one_context\<lparr>heap := [0 \<mapsto> (sample_record 0 0)\<lparr>c_recv := Some (JFunction f),
                                       c_recv_sync_handler := Some (JFunction g)\<rparr>],
            persistent := insert (0, P_recv_sync_handler) (insert (0, P_recv) (persistent one_context))\<rparr>)"
proof -
  have "heap one_context 0 = Some (sample_record 0 0)" by (simp add: one_context_heap)
  from register_both [OF one_context_current this] show ?thesis
    by (simp only: one_context_heap fun_upd_upd)
qed

lemma one_context_register_sync:
  "run_guest E one_context 0 [Invoke T_RecvSync [JFunction g]] =
     Inr (one_context\<lparr>heap := [0 \<mapsto> (sample_record 0 0)\<lparr>c_recv_sync_handler := Some (JFunction g)\<rparr>],
            persistent := insert (0, P_recv_sync_handler) (persistent one_context)\<rparr>)"
proof -
  have "heap one_context 0 = Some (sample_record 0 0)" by (simp add: one_context_heap)
  from RecvSync_registered [OF one_context_current this, of "[JFunction g]"] show ?thesis
    by (simp add: guest_step_def IsFunction_def arg0_def one_context_heap)
qed

lemma sync_throws_state:
  "sync_throws =
     one_context\<lparr>heap := [0 \<mapsto> (sample_record 0 0)\<lparr>c_recv_sync_handler := Some (JFunction 40)\<rparr>],
            persistent := insert (0, P_recv_sync_handler) (persistent one_context)\<rparr>"
  unfolding sync_throws_def by (simp add: one_context_register_sync del: run_guest.simps)

lemma sync_nul_state:
  "sync_nul =
     one_context\<lparr>heap := [0 \<mapsto> (sample_record 0 0)\<lparr>c_recv_sync_handler := Some (JFunction 50)\<rparr>],
            persistent := insert (0, P_recv_sync_handler) (persistent one_context)\<rparr>"
  unfolding sync_nul_def by (simp add: one_context_register_sync del: run_guest.simps)

lemma sync_throws_enter:
  "enter_context sync_throws 0 =
     Inr ((sample_record 0 0)\<lparr>c_recv_sync_handler := Some (JFunction 40)\<rparr>, 0)"
  by (simp add: sync_throws_state enter_context_def sample_record_def)

lemma sync_nul_enter:
  "enter_context sync_nul 0 =
     Inr ((sample_record 0 0)\<lparr>c_recv_sync_handler := Some (JFunction 50)\<rparr>, 0)"
  by (simp add: sync_nul_state enter_context_def sample_record_def)


lemma loaded_state:
  "loaded = one_context\<lparr>heap := [0 \<mapsto> (sample_record 0 0)\<lparr>c_recv := Some (JFunction 10),
                                       c_recv_sync_handler := Some (JFunction 20)\<rparr>],
              persistent := insert (0, P_recv_sync_handler) (insert (0, P_recv) (persistent one_context))\<rparr>"
  unfolding loaded_def worker_load_def
  by (simp add: one_context_enter sample_compile one_context_register del: run_guest.simps)

lemma failing_state:
  "failing = one_context\<lparr>heap := [0 \<mapsto> (sample_record 0 0)\<lparr>c_recv := Some (JFunction 40),
                                       c_recv_sync_handler := Some (JFunction 30)\<rparr>],
              persistent := insert (0, P_recv_sync_handler) (insert (0, P_recv) (persistent one_context))\<rparr>"
  unfolding failing_def by (simp add: one_context_register del: run_guest.simps)

lemma loaded_enter:
  "enter_context loaded 0 =
     Inr ((sample_record 0 0)\<lparr>c_recv := Some (JFunction 10), c_recv_sync_handler := Some (JFunction 20)\<rparr>, 0)"
  by (simp add: loaded_state enter_context_def sample_record_def)

lemma failing_enter:
  "enter_context failing 0 =
     Inr ((sample_record 0 0)\<lparr>c_recv := Some (JFunction 40), c_recv_sync_handler := Some (JFunction 30)\<rparr>, 0)"
  by (simp add: failing_state enter_context_def sample_record_def)

lemma loaded_current: "current_context E loaded 0 = Some 0"
  by (simp add: loaded_state one_context_current)




lemma two_registered_state:
  "two_registered = two_contexts\<lparr>heap := [0 \<mapsto> sample_record 0 0,
       1 \<mapsto> (sample_record 1 1)\<lparr>c_recv := Some (JFunction 10), c_recv_sync_handler := Some (JFunction 20)\<rparr>],
       persistent := insert (1, P_recv_sync_handler) (insert (1, P_recv) (persistent two_contexts))\<rparr>"
proof -
  have "heap two_contexts 1 = Some (sample_record 1 1)" by (simp add: two_contexts_heap)
  from register_both [OF two_contexts_current(2) this, where f = 10 and g = 20 and E = sample_engine] show ?thesis
    unfolding two_registered_def by (simp add: two_contexts_heap del: run_guest.simps)
qed

lemma two_registered_current:
  "current_context E two_registered 0 = Some 0"
  by (simp add: two_registered_state two_contexts_current)

lemma two_registered_heap:
  "heap two_registered 0 = Some (sample_record 0 0)"
  "heap two_registered 1 =
     Some ((sample_record 1 1)\<lparr>c_recv := Some (JFunction 10), c_recv_sync_handler := Some (JFunction 20)\<rparr>)"
  by (simp_all add: two_registered_state)

lemma hijacked_run:
  "run_guest sample_engine two_registered 0
     [Assign ''$context'' (JInteger 1), Invoke T_Recv [JFunction 40]] = Inr hijacked"
  and hijacked_heap:
  "heap hijacked 1 =
     Some ((sample_record 1 1)\<lparr>c_recv := Some (JFunction 40), c_recv_sync_handler := Some (JFunction 20)\<rparr>)"
  "heap hijacked 0 = Some (sample_record 0 0)"
proof -
  let ?s = "Global_Assign two_registered 0 ''$context'' (JInteger 1)"
  let ?r = "(sample_record 1 1)\<lparr>c_recv := Some (JFunction 10), c_recv_sync_handler := Some (JFunction 20)\<rparr>"
  let ?X = "?s\<lparr>heap := (heap ?s)(1 \<mapsto> ?r\<lparr>c_recv := Some (arg0 [JFunction 40])\<rparr>),
               persistent := insert (1, P_recv) (persistent ?s)\<rparr>"
  have g: "globals ?s 0 ''$context'' = Some (JInteger 1, Attr_None)"
    using two_contexts_global(1) by (simp add: Global_Assign_def two_registered_state)
  have w: "contexts (worker ?s) 1 = Some 1"
    using two_contexts_worker by (simp add: Global_Assign_worker two_registered_state)
  have cur: "current_context sample_engine ?s 0 = Some 1"
    using g w by (simp add: current_context_def Global_Get_def Int32Value_def)
  have h: "heap ?s 1 = Some ?r"
    using two_registered_heap(2) by simp
  have "Recv sample_engine ?s 0 [JFunction 40] = Inr ?X"
    by (rule Recv_registered [OF cur h]) (simp add: IsFunction_def arg0_def)
  then have run: "run_guest sample_engine two_registered 0
     [Assign ''$context'' (JInteger 1), Invoke T_Recv [JFunction 40]] = Inr ?X"
    by (simp add: guest_step_def)
  then have eq: "hijacked = ?X"
    by (simp add: hijacked_def del: run_guest.simps)
  from run eq show "run_guest sample_engine two_registered 0
     [Assign ''$context'' (JInteger 1), Invoke T_Recv [JFunction 40]] = Inr hijacked"
    by simp
  show "heap hijacked 1 =
     Some ((sample_record 1 1)\<lparr>c_recv := Some (JFunction 40), c_recv_sync_handler := Some (JFunction 20)\<rparr>)"
    unfolding eq by (simp add: arg0_def sample_record_def)
  have "heap ?X 0 = heap two_registered 0" by simp
  then show "heap hijacked 0 = Some (sample_record 0 0)"
    unfolding eq by (simp only: two_registered_heap(1))
qed

text \<open>
  The same without any assignment: the script of the context with id 1 deletes its global
  \<open>$context\<close>; the lookup then reads undefined, which converts to 0, and the registration
  lands in the record of the context with id 0.
\<close>

lemma misdirected_run:
  "run_guest sample_engine two_registered 1
     [Delete ''$context'', Invoke T_Recv [JFunction 40]] = Inr misdirected"
  and misdirected_heap:
  "heap misdirected 0 = Some ((sample_record 0 0)\<lparr>c_recv := Some (JFunction 40)\<rparr>)"
  "heap misdirected 1 = heap two_registered 1"
proof -
  let ?s = "Global_Delete two_registered 1 ''$context''"
  let ?X = "?s\<lparr>heap := (heap ?s)(0 \<mapsto> (sample_record 0 0)\<lparr>c_recv := Some (arg0 [JFunction 40])\<rparr>),
               persistent := insert (0, P_recv) (persistent ?s)\<rparr>"
  have two: "globals two_contexts (Suc 0) ''$context'' = Some (JInteger 1, Attr_None)"
    using two_contexts_global(2) by simp
  have inh: "inherited two_contexts (Suc 0) ''$context'' = None"
    by (simp add: two_contexts_def context_new_Inr one_context_worker one_context_next INT32_MAX_def)
  have g: "Global_Get ?s 1 ''$context'' = JUndefined"
    using two inh by (simp add: Global_Get_def Global_Delete_def two_registered_state)
  have w: "contexts (worker ?s) 0 = Some 0"
    using two_contexts_worker by (simp add: Global_Delete_worker two_registered_state)
  have cur: "current_context sample_engine ?s 1 = Some 0"
    using g w by (simp add: current_context_def Int32Value_def)
  have hp: "heap ?s = heap two_registered"
    by (simp add: Global_Delete_def split: option.splits prod.splits)
  have h: "heap ?s 0 = Some (sample_record 0 0)"
    using hp two_registered_heap(1) by simp
  have "Recv sample_engine ?s 1 [JFunction 40] = Inr ?X"
    by (rule Recv_registered [OF cur h]) (simp add: IsFunction_def arg0_def)
  then have run: "run_guest sample_engine two_registered 1
     [Delete ''$context'', Invoke T_Recv [JFunction 40]] = Inr ?X"
    by (simp add: guest_step_def)
  then have eq: "misdirected = ?X"
    by (simp add: misdirected_def del: run_guest.simps)
  from run eq show "run_guest sample_engine two_registered 1
     [Delete ''$context'', Invoke T_Recv [JFunction 40]] = Inr misdirected"
    by simp
  show "heap misdirected 0 = Some ((sample_record 0 0)\<lparr>c_recv := Some (JFunction 40)\<rparr>)"
    unfolding eq by (simp add: arg0_def)
  have "heap ?X 1 = heap ?s 1" by simp
  then show "heap misdirected 1 = heap two_registered 1"
    unfolding eq hp .
qed

subsection \<open>Registration stays in the calling context\<close>

lemma Global_ops_heap [simp]:
  "heap (Global_Delete s ctx name) = heap s"
  "heap (Global_Define s ctx name v attr) = heap s"
  "heap (Inherited_Assign s ctx name v) = heap s"
  by (simp_all add: Global_Delete_def Global_Define_def Inherited_Assign_def
      split: option.splits prod.splits)

lemma Global_ops_persistent [simp]:
  "persistent (Global_Assign s ctx name v) = persistent s"
  "persistent (Global_Delete s ctx name) = persistent s"
  "persistent (Global_Define s ctx name v attr) = persistent s"
  "persistent (Inherited_Assign s ctx name v) = persistent s"
  by (simp_all add: Global_Assign_def Global_Delete_def Global_Define_def Inherited_Assign_def
      split: option.splits prod.splits)

lemma Global_ops_heap_update:
  "Global_Delete (s\<lparr>heap := h\<rparr>) ctx name = (Global_Delete s ctx name)\<lparr>heap := h\<rparr>"
  "Global_Define (s\<lparr>heap := h\<rparr>) ctx name v attr = (Global_Define s ctx name v attr)\<lparr>heap := h\<rparr>"
  "Inherited_Assign (s\<lparr>heap := h\<rparr>) ctx name v = (Inherited_Assign s ctx name v)\<lparr>heap := h\<rparr>"
  by (simp_all add: Global_Delete_def Global_Define_def Inherited_Assign_def
      split: option.splits prod.splits)

lemma Global_ops_other:
  "name \<noteq> name' \<Longrightarrow> globals (Global_Delete s ctx name) ctx name' = globals s ctx name'"
  "name \<noteq> name' \<Longrightarrow> globals (Global_Define s ctx name v attr) ctx name' = globals s ctx name'"
  "globals (Inherited_Assign s ctx name v) = globals s"
  by (simp_all add: Global_Delete_def Global_Define_def Inherited_Assign_def
      split: option.splits prod.splits)

text \<open>
  As long as the global object has its own property \<open>$context\<close>, the lookup depends on that
  property and on the registry only.
\<close>

lemma current_context_own:
  assumes "globals s' ctx ''$context'' = globals s ctx ''$context''"
    and "globals s ctx ''$context'' \<noteq> None"
    and "worker s' = worker s"
  shows "current_context E s' ctx = current_context E s ctx"
  using assms by (auto simp: current_context_def Global_Get_def)

lemma guest_step_own_property:
  assumes "\<forall>v attr. op \<noteq> Assign ''$context'' v \<and> op \<noteq> Delete ''$context'' \<and>
             op \<noteq> Define ''$context'' v attr"
    and "guest_step E s ctx op = Inr s1"
  shows "globals s1 ctx ''$context'' = globals s ctx ''$context''"
proof (cases op)
  case (Assign name v)
  with assms show ?thesis by (auto simp: guest_step_def Global_Assign_other)
next
  case (Delete name)
  with assms show ?thesis by (auto simp: guest_step_def Global_ops_other)
next
  case (Define name v attr)
  with assms show ?thesis by (auto simp: guest_step_def Global_ops_other)
next
  case (AssignInherited name v)
  with assms show ?thesis by (auto simp: guest_step_def Global_ops_other)
next
  case (Invoke f args)
  with assms(2) show ?thesis
    by (cases f)
      (auto simp: guest_step_def Print_def Recv_def RecvSync_def Send_def SendSync_def Let_def
        split: if_splits option.splits)
qed

text \<open>
  One operation of the script of context \<open>ctx\<close>, whose global object has the property
  \<open>$context\<close> and whose lookup resolves to the record at \<open>a\<close>: the lookup still resolves to
  \<open>a\<close>, the record at \<open>a\<close> changes in its two handler fields at most, every other record and
  its cells are untouched, and the outcome does not depend on what is stored at another
  address \<open>b\<close>.
\<close>

lemma guest_step_confined:
  assumes op: "\<forall>v attr. op \<noteq> Assign ''$context'' v \<and> op \<noteq> Delete ''$context'' \<and>
             op \<noteq> Define ''$context'' v attr"
    and own: "globals s ctx ''$context'' \<noteq> None"
    and cur: "current_context E s ctx = Some a"
    and step: "guest_step E s ctx op = Inr s1"
  shows "globals s1 ctx ''$context'' \<noteq> None"
    and "current_context E s1 ctx = Some a"
    and "b \<noteq> a \<Longrightarrow> heap s1 b = heap s b"
    and "b \<noteq> a \<Longrightarrow> ((b, fld) \<in> persistent s1) = ((b, fld) \<in> persistent s)"
    and "heap s a = Some r \<Longrightarrow> \<exists>f g. heap s1 a = Some (r\<lparr>c_recv := f, c_recv_sync_handler := g\<rparr>)"
    and "b \<noteq> a \<Longrightarrow>
         guest_step E (s\<lparr>heap := (heap s)(b := x)\<rparr>) ctx op = Inr (s1\<lparr>heap := (heap s1)(b := x)\<rparr>)"
proof -
  have id: "r = r\<lparr>c_recv := c_recv r, c_recv_sync_handler := c_recv_sync_handler r\<rparr>" by simp
  note kept = guest_step_own_property [OF op step]
  from kept own show "globals s1 ctx ''$context'' \<noteq> None" by simp
  from current_context_own [OF kept own guest_step_worker [OF step]] cur
  show "current_context E s1 ctx = Some a" by simp
  have plain: "heap s1 = heap s \<and> persistent s1 = persistent s"
    if "\<forall>f args. op \<noteq> Invoke f args"
    using that step by (cases op) (auto simp: guest_step_def)
  show "heap s1 b = heap s b" if "b \<noteq> a"
  proof (cases op)
    case (Invoke f args)
    with step cur that show ?thesis
      by (cases f)
        (auto simp: guest_step_def Print_def Recv_def RecvSync_def Send_def SendSync_def Let_def
          split: if_splits option.splits)
  qed (use plain in auto)
  show "((b, fld) \<in> persistent s1) = ((b, fld) \<in> persistent s)" if "b \<noteq> a"
  proof (cases op)
    case (Invoke f args)
    with step cur that show ?thesis
      by (cases f)
        (auto simp: guest_step_def Print_def Recv_def RecvSync_def Send_def SendSync_def Let_def
          split: if_splits option.splits)
  qed (use plain in auto)
  show "\<exists>f g. heap s1 a = Some (r\<lparr>c_recv := f, c_recv_sync_handler := g\<rparr>)" if r: "heap s a = Some r"
  proof (cases op)
    case (Invoke f args)
    show ?thesis
    proof (cases f)
      case T_Print
      with Invoke step r have "heap s1 a = Some r" by (auto simp: guest_step_def Print_def)
      with id show ?thesis by metis
    next
      case T_Recv
      with Invoke step r cur have "heap s1 a = Some (r\<lparr>c_recv := Some (arg0 args)\<rparr>)"
        by (auto simp: guest_step_def Recv_def Let_def split: if_splits)
      then have "heap s1 a = Some (r\<lparr>c_recv := Some (arg0 args), c_recv_sync_handler := c_recv_sync_handler r\<rparr>)"
        by simp
      then show ?thesis by blast
    next
      case T_Send
      with Invoke step r cur have "heap s1 a = Some r"
        by (auto simp: guest_step_def Send_def Let_def split: if_splits)
      with id show ?thesis by metis
    next
      case T_SendSync
      with Invoke step r cur have "heap s1 a = Some r"
        by (auto simp: guest_step_def SendSync_def Let_def split: if_splits)
      with id show ?thesis by metis
    next
      case T_RecvSync
      with Invoke step r cur have "heap s1 a = Some (r\<lparr>c_recv_sync_handler := Some (arg0 args)\<rparr>)"
        by (auto simp: guest_step_def RecvSync_def Let_def split: if_splits)
      then have "heap s1 a = Some (r\<lparr>c_recv := c_recv r, c_recv_sync_handler := Some (arg0 args)\<rparr>)"
        by simp
      then show ?thesis by blast
    qed
  next
    case (Assign name v)
    with plain r have "heap s1 a = Some r" by auto
    with id show ?thesis by metis
  next
    case (Delete name)
    with plain r have "heap s1 a = Some r" by auto
    with id show ?thesis by metis
  next
    case (Define name v attr)
    with plain r have "heap s1 a = Some r" by auto
    with id show ?thesis by metis
  next
    case (AssignInherited name v)
    with plain r have "heap s1 a = Some r" by auto
    with id show ?thesis by metis
  qed
  show "guest_step E (s\<lparr>heap := (heap s)(b := x)\<rparr>) ctx op = Inr (s1\<lparr>heap := (heap s1)(b := x)\<rparr>)"
    if "b \<noteq> a"
  proof (cases op)
    case (Assign name v)
    with step show ?thesis by (auto simp: guest_step_def Global_Assign_heap_update)
  next
    case (Delete name)
    with step show ?thesis by (auto simp: guest_step_def Global_ops_heap_update)
  next
    case (Define name v attr)
    with step show ?thesis by (auto simp: guest_step_def Global_ops_heap_update)
  next
    case (AssignInherited name v)
    with step show ?thesis by (auto simp: guest_step_def Global_ops_heap_update)
  next
    case (Invoke f args)
    with step cur that show ?thesis
      by (cases f)
        (auto simp: guest_step_def Print_def Recv_def RecvSync_def Send_def SendSync_def Let_def
          fun_upd_twist split: if_splits option.splits)
  qed
qed

lemma run_guest_confined:
  assumes "\<forall>op \<in> set ops. \<forall>v attr. op \<noteq> Assign ''$context'' v \<and> op \<noteq> Delete ''$context'' \<and>
             op \<noteq> Define ''$context'' v attr"
    and "globals s ctx ''$context'' \<noteq> None"
    and "current_context E s ctx = Some a"
    and "run_guest E s ctx ops = Inr s'"
  shows "current_context E s' ctx = Some a \<and>
         (b \<noteq> a \<longrightarrow> heap s' b = heap s b \<and>
            ((b, fld) \<in> persistent s') = ((b, fld) \<in> persistent s) \<and>
            run_guest E (s\<lparr>heap := (heap s)(b := x)\<rparr>) ctx ops = Inr (s'\<lparr>heap := (heap s')(b := x)\<rparr>)) \<and>
         (\<forall>r. heap s a = Some r \<longrightarrow>
            (\<exists>f g. heap s' a = Some (r\<lparr>c_recv := f, c_recv_sync_handler := g\<rparr>)))"
  using assms
proof (induction ops arbitrary: s)
  case Nil
  have "r = r\<lparr>c_recv := c_recv r, c_recv_sync_handler := c_recv_sync_handler r\<rparr>" for r :: context_s
    by simp
  then have "\<exists>f g. r = r\<lparr>c_recv := f, c_recv_sync_handler := g\<rparr>" for r :: context_s
    by metis
  with Nil show ?case by auto
next
  case (Cons op ops)
  from Cons.prems(4) obtain s1 where
    step: "guest_step E s ctx op = Inr s1" and rest: "run_guest E s1 ctx ops = Inr s'"
    by (auto split: sum.splits)
  from Cons.prems(1) have op: "\<forall>v attr. op \<noteq> Assign ''$context'' v \<and> op \<noteq> Delete ''$context'' \<and>
             op \<noteq> Define ''$context'' v attr"
    and ops: "\<forall>op \<in> set ops. \<forall>v attr. op \<noteq> Assign ''$context'' v \<and> op \<noteq> Delete ''$context'' \<and>
             op \<noteq> Define ''$context'' v attr"
    by simp_all
  note one = guest_step_confined [OF op Cons.prems(2) Cons.prems(3) step]
  note ih = Cons.IH [OF ops one(1) one(2) rest]
  have cur: "current_context E s' ctx = Some a" using ih by simp
  have other: "heap s' b = heap s b \<and>
      ((b, fld) \<in> persistent s') = ((b, fld) \<in> persistent s) \<and>
      run_guest E (s\<lparr>heap := (heap s)(b := x)\<rparr>) ctx (op # ops) = Inr (s'\<lparr>heap := (heap s')(b := x)\<rparr>)"
    if "b \<noteq> a"
  proof -
    from ih that have "heap s' b = heap s1 b" and
      "((b, fld) \<in> persistent s') = ((b, fld) \<in> persistent s1)" and
      r: "run_guest E (s1\<lparr>heap := (heap s1)(b := x)\<rparr>) ctx ops = Inr (s'\<lparr>heap := (heap s')(b := x)\<rparr>)"
      by blast+
    moreover from one(3) [OF that] have "heap s1 b = heap s b" .
    moreover from one(4) [OF that, of fld]
    have "((b, fld) \<in> persistent s1) = ((b, fld) \<in> persistent s)" .
    moreover from one(6) [OF that, of x]
    have "guest_step E (s\<lparr>heap := (heap s)(b := x)\<rparr>) ctx op = Inr (s1\<lparr>heap := (heap s1)(b := x)\<rparr>)" .
    ultimately show ?thesis by simp
  qed
  have own: "\<exists>f g. heap s' a = Some (r\<lparr>c_recv := f, c_recv_sync_handler := g\<rparr>)"
    if "heap s a = Some r" for r
  proof -
    from one(5) [OF that] obtain f g where
      "heap s1 a = Some (r\<lparr>c_recv := f, c_recv_sync_handler := g\<rparr>)" by blast
    with ih obtain f' g' where
      "heap s' a = Some (r\<lparr>c_recv := f, c_recv_sync_handler := g\<rparr>\<lparr>c_recv := f', c_recv_sync_handler := g'\<rparr>)"
      by blast
    then have "heap s' a = Some (r\<lparr>c_recv := f', c_recv_sync_handler := g'\<rparr>)" by simp
    then show ?thesis by blast
  qed
  from cur other own show ?case by blast
qed

text \<open>
  C1, as the code has it.  Take a context whose global object has the property
  \<open>$context\<close>, resolving in the registry to the context's own record, and let its script
  perform any sequence of operations on its global object (assignments, deletions, new
  definitions, properties put on the prototype chain) and calls of the native functions in
  which \<open>$context\<close> itself is never assigned, deleted or defined anew.  Then the run
  changes nothing of any other context: the record of every other context, its two
  handlers included, and the engine's cells for that record are after the run what they
  were before, and the registry is unchanged.  The run does not read another context's
  record either: with anything else stored in that record's place the run goes the same
  way.  Of the script's own record, only the two handler fields can differ afterwards.
\<close>

theorem registration_confined:
  assumes "\<forall>op \<in> set ops. \<forall>v attr. op \<noteq> Assign ''$context'' v \<and> op \<noteq> Delete ''$context'' \<and>
             op \<noteq> Define ''$context'' v attr"
    and "globals s ctx ''$context'' \<noteq> None"
    and "current_context E s ctx = Some a"
    and "b \<noteq> a"
    and "run_guest E s ctx ops = Inr s'"
  shows "heap s' b = heap s b \<and>
         (\<forall>fld. ((b, fld) \<in> persistent s') = ((b, fld) \<in> persistent s)) \<and>
         worker s' = worker s \<and>
         (\<forall>x. run_guest E (s\<lparr>heap := (heap s)(b := x)\<rparr>) ctx ops = Inr (s'\<lparr>heap := (heap s')(b := x)\<rparr>)) \<and>
         (\<forall>r. heap s a = Some r \<longrightarrow>
            (\<exists>f g. heap s' a = Some (r\<lparr>c_recv := f, c_recv_sync_handler := g\<rparr>)))"
proof -
  note c = run_guest_confined [OF assms(1,2,3,5)]
  from c [of b] assms(4) have "heap s' b = heap s b" by simp
  moreover from c [of b] assms(4)
  have "((b, fld) \<in> persistent s') = ((b, fld) \<in> persistent s)" for fld by simp
  moreover from run_guest_worker [OF assms(5)] have "worker s' = worker s" .
  moreover from c [of b] assms(4)
  have "run_guest E (s\<lparr>heap := (heap s)(b := x)\<rparr>) ctx ops = Inr (s'\<lparr>heap := (heap s')(b := x)\<rparr>)" for x
    by simp
  moreover from c [of b]
  have "\<forall>r. heap s a = Some r \<longrightarrow>
            (\<exists>f g. heap s' a = Some (r\<lparr>c_recv := f, c_recv_sync_handler := g\<rparr>))" by simp
  ultimately show ?thesis by blast
qed

theorem registration_confined_witness:
  "heap (projr (run_guest sample_engine two_registered 0
                  [Assign ''counter'' (JInteger 1), Delete ''counter'',
                   AssignInherited ''$context'' (JInteger 1), Invoke T_Recv [JFunction 40]])) 1
     = Some ((sample_record 1 1)\<lparr>c_recv := Some (JFunction 10), c_recv_sync_handler := Some (JFunction 20)\<rparr>) \<and>
   heap (projr (run_guest sample_engine two_registered 0
                  [Assign ''counter'' (JInteger 1), Delete ''counter'',
                   AssignInherited ''$context'' (JInteger 1), Invoke T_Recv [JFunction 40]])) 0
     = Some ((sample_record 0 0)\<lparr>c_recv := Some (JFunction 40)\<rparr>)"
proof -
  let ?ops = "[Assign ''counter'' (JInteger 1), Delete ''counter'',
               AssignInherited ''$context'' (JInteger 1), Invoke T_Recv [JFunction 40]]"
  let ?s = "Inherited_Assign
              (Global_Delete (Global_Assign two_registered 0 ''counter'' (JInteger 1)) 0 ''counter'')
              0 ''$context'' (JInteger 1)"
  let ?X = "?s\<lparr>heap := (heap ?s)(0 \<mapsto> (sample_record 0 0)\<lparr>c_recv := Some (arg0 [JFunction 40])\<rparr>),
               persistent := insert (0, P_recv) (persistent ?s)\<rparr>"
  have own: "globals two_registered 0 ''$context'' \<noteq> None"
    using two_contexts_global(1) by (simp add: two_registered_state)
  have kept: "globals ?s 0 ''$context'' = globals two_registered 0 ''$context''"
    by (simp add: Global_ops_other Global_Assign_other)
  have w: "worker ?s = worker two_registered"
    by (simp add: Inherited_Assign_worker Global_Delete_worker Global_Assign_worker)
  have cur: "current_context sample_engine ?s 0 = Some 0"
    using current_context_own [OF kept own w] two_registered_current by simp
  have h: "heap ?s 0 = Some (sample_record 0 0)"
    by (simp add: two_registered_heap)
  have "Recv sample_engine ?s 0 [JFunction 40] = Inr ?X"
    by (rule Recv_registered [OF cur h]) (simp add: IsFunction_def arg0_def)
  then have run: "run_guest sample_engine two_registered 0 ?ops = Inr ?X"
    by (simp add: guest_step_def)
  have ops: "\<forall>op \<in> set ?ops. \<forall>v attr. op \<noteq> Assign ''$context'' v \<and> op \<noteq> Delete ''$context'' \<and>
             op \<noteq> Define ''$context'' v attr"
    by simp
  have ne: "(1 :: nat) \<noteq> 0" by simp
  from registration_confined [OF ops own two_registered_current ne run]
  have "heap ?X 1 = heap two_registered 1"
    by blast
  moreover have "heap ?X 0 = Some ((sample_record 0 0)\<lparr>c_recv := Some (JFunction 40)\<rparr>)"
    by (simp add: arg0_def)
  ultimately show ?thesis
    using run two_registered_heap(2) by (simp del: run_guest.simps)
qed

text \<open>
  With the assignment, registration leaves the calling context: the script of the context
  with id 0 assigns 1 to its global \<open>$context\<close> and calls the registration function; the
  asynchronous handler of the context with id 1, function 10 before, is function 40
  afterwards, and the script's own context has no handler.  With a deletion it does so
  too: the script of the context with id 1 deletes \<open>$context\<close> and calls the registration
  function; the context with id 0, which had no handler, has function 40 afterwards.
\<close>

theorem registration_crosses_contexts:
  "heap two_registered 1 =
     Some ((sample_record 1 1)\<lparr>c_recv := Some (JFunction 10), c_recv_sync_handler := Some (JFunction 20)\<rparr>) \<and>
   run_guest sample_engine two_registered 0
     [Assign ''$context'' (JInteger 1), Invoke T_Recv [JFunction 40]] = Inr hijacked \<and>
   heap hijacked 1 =
     Some ((sample_record 1 1)\<lparr>c_recv := Some (JFunction 40), c_recv_sync_handler := Some (JFunction 20)\<rparr>) \<and>
   heap hijacked 0 = Some (sample_record 0 0) \<and>
   heap two_registered 0 = Some (sample_record 0 0) \<and>
   run_guest sample_engine two_registered 1
     [Delete ''$context'', Invoke T_Recv [JFunction 40]] = Inr misdirected \<and>
   heap misdirected 0 = Some ((sample_record 0 0)\<lparr>c_recv := Some (JFunction 40)\<rparr>)"
  using two_registered_heap hijacked_run hijacked_heap misdirected_run misdirected_heap(1)
  by blast

subsection \<open>Disposing a context\<close>




subsection \<open>Sending to the script\<close>



text \<open>
  C4, as the code has it.  For a live context \<open>c\<close> and a message, \<open>worker_sendSync\<close>
  composes its answer in the local string \<open>out\<close> and returns \<open>out.c_str()\<close>: the text
  \<open>err: $recvSync not called\<close> without a registered synchronous handler, the text
  \<open>err: non-string return value\<close> when the handler returns a value that is not a string,
  and the handler's string up to its first NUL byte when it returns a string.  In all
  three cases \<open>out\<close> is destroyed when the function returns, so the pointer handed to the
  host is dangling, and reading the answer through it is a use after free.  When the
  handler throws, the call returns an empty handle, and \<open>IsString\<close> on it faults.
\<close>

theorem worker_sendSync_returns_dangling_pointer:
  assumes "enter_context s c = Inr (r, ctx)"
  shows "(c_recv_sync_handler r = None \<longrightarrow>
            worker_sendSync E s c msg = Inr (Dangling ''err: $recvSync not called'', s)) \<and>
         (\<forall>h s'. c_recv_sync_handler r = Some h \<and>
              run_guest E s ctx (effects (Call E h [JString msg])) = Inr s' \<longrightarrow>
            (result (Call E h [JString msg]) = None \<longrightarrow>
               worker_sendSync E s c msg = Inl EmptyHandle) \<and>
            (\<forall>text. result (Call E h [JString msg]) = Some (JString text) \<longrightarrow>
               worker_sendSync E s c msg
                 = Inr (Dangling (takeWhile (\<lambda>ch. ch \<noteq> CHR 0x00) text), s')) \<and>
            (\<forall>v. result (Call E h [JString msg]) = Some v \<and> \<not> IsString v \<longrightarrow>
               worker_sendSync E s c msg = Inr (Dangling ''err: non-string return value'', s'))) \<and>
         (\<forall>p s'. worker_sendSync E s c msg = Inr (p, s') \<longrightarrow>
            (\<exists>text. p = Dangling text) \<and> read_c_str p = Inl UseAfterFree)"
proof -
  have lit: "c_str ''err: $recvSync not called'' = ''err: $recvSync not called''"
    "c_str ''err: non-string return value'' = ''err: non-string return value''"
    by (simp_all add: c_str_def)
  have idem: "c_str (c_str str) = c_str str" for str
    by (simp add: c_str_def)
  have cut: "c_str str = takeWhile (\<lambda>ch. ch \<noteq> CHR 0x00) str" for str
    by (simp add: c_str_def)
  have none: "c_recv_sync_handler r = None \<longrightarrow>
            worker_sendSync E s c msg = Inr (Dangling ''err: $recvSync not called'', s)"
    using assms by (simp add: worker_sendSync_def Let_def lit)
  have some: "\<forall>h s'. c_recv_sync_handler r = Some h \<and>
              run_guest E s ctx (effects (Call E h [JString msg])) = Inr s' \<longrightarrow>
            (result (Call E h [JString msg]) = None \<longrightarrow>
               worker_sendSync E s c msg = Inl EmptyHandle) \<and>
            (\<forall>text. result (Call E h [JString msg]) = Some (JString text) \<longrightarrow>
               worker_sendSync E s c msg
                 = Inr (Dangling (takeWhile (\<lambda>ch. ch \<noteq> CHR 0x00) text), s')) \<and>
            (\<forall>v. result (Call E h [JString msg]) = Some v \<and> \<not> IsString v \<longrightarrow>
               worker_sendSync E s c msg = Inr (Dangling ''err: non-string return value'', s'))"
    using assms
    by (auto simp: worker_sendSync_def Let_def IsString_def Utf8Value_of_def lit idem cut [symmetric])
  have ptr: "\<forall>p s'. worker_sendSync E s c msg = Inr (p, s') \<longrightarrow>
            (\<exists>text. p = Dangling text) \<and> read_c_str p = Inl UseAfterFree"
    by (auto simp: worker_sendSync_def Let_def read_c_str_def
          split: sum.splits option.splits if_splits prod.splits)
  from none some ptr show ?thesis by blast
qed

theorem worker_sendSync_returns_dangling_pointer_witness:
  "worker_sendSync sample_engine one_context 0 ''abc''
     = Inr (Dangling ''err: $recvSync not called'', one_context) \<and>
   read_c_str (fst (projr (worker_sendSync sample_engine one_context 0 ''abc''))) = Inl UseAfterFree \<and>
   worker_sendSync sample_engine failing 0 ''abc''
     = Inr (Dangling ''err: non-string return value'', failing) \<and>
   worker_sendSync sample_engine loaded 0 ''abc'' = Inr (Dangling ''abc'', loaded) \<and>
   read_c_str (fst (projr (worker_sendSync sample_engine loaded 0 ''abc''))) = Inl UseAfterFree \<and>
   worker_sendSync sample_engine sync_nul 0 ''abc'' = Inr (Dangling ''ab'', sync_nul) \<and>
   worker_sendSync sample_engine sync_throws 0 ''abc'' = Inl EmptyHandle"
proof -
  have a: "worker_sendSync sample_engine one_context 0 ''abc''
     = Inr (Dangling ''err: $recvSync not called'', one_context)"
    using worker_sendSync_returns_dangling_pointer [OF one_context_enter, of sample_engine "''abc''"]
    by (simp add: sample_record_def)
  have b: "worker_sendSync sample_engine failing 0 ''abc''
     = Inr (Dangling ''err: non-string return value'', failing)"
    using worker_sendSync_returns_dangling_pointer [OF failing_enter, of sample_engine "''abc''"]
    by (simp add: sample_record_def sample_call IsString_def)
  have c: "worker_sendSync sample_engine loaded 0 ''abc'' = Inr (Dangling ''abc'', loaded)"
    using worker_sendSync_returns_dangling_pointer [OF loaded_enter, of sample_engine "''abc''"]
    by (simp add: sample_record_def sample_call arg0_def)
  have d: "worker_sendSync sample_engine sync_nul 0 ''abc'' = Inr (Dangling ''ab'', sync_nul)"
    using worker_sendSync_returns_dangling_pointer [OF sync_nul_enter, of sample_engine "''abc''"]
    by (simp add: sample_record_def sample_call)
  have e: "worker_sendSync sample_engine sync_throws 0 ''abc'' = Inl EmptyHandle"
    using worker_sendSync_returns_dangling_pointer [OF sync_throws_enter, of sample_engine "''abc''"]
    by (simp add: sample_record_def sample_call)
  have a': "read_c_str (fst (projr (worker_sendSync sample_engine one_context 0 ''abc''))) = Inl UseAfterFree"
    by (simp add: a read_c_str_def)
  have c': "read_c_str (fst (projr (worker_sendSync sample_engine loaded 0 ''abc''))) = Inl UseAfterFree"
    by (simp add: c read_c_str_def)
  from a a' b c c' d e show ?thesis by blast
qed

subsection \<open>Creating a context\<close>

text \<open>
  C5, as the code has it.  \<open>context_new\<close> gives the new context the current value of the
  counter as its id and advances the counter by one; it makes a new global scope that
  holds exactly six properties, the five native functions (print, register-async,
  register-sync, send, send-and-wait) and \<open>$context\<close>, whose value is the id.  All six are
  set with the attribute \<open>None\<close>: \<open>$context\<close> is an ordinary property, and an assignment
  to it by the script replaces its value.
\<close>

theorem context_new_installs:
  assumes "context_new s cb recvSync_cb data = Inr (c, s')"
  shows "heap s' c = Some \<lparr>c_id = contextIndex (worker s), c_data = data,
                           c_context = Some (globals_next s), c_cb = cb, c_req_cb = recvSync_cb,
                           c_recv = None, c_recv_sync_handler = None\<rparr> \<and>
         contextIndex (worker s') = contextIndex (worker s) + 1 \<and>
         globals_next s' = globals_next s + 1 \<and>
         globals s' (globals_next s) =
           [''$context'' \<mapsto> (JInteger (contextIndex (worker s)), Attr_None),
            ''$print'' \<mapsto> (JNative T_Print, Attr_None),
            ''$recv'' \<mapsto> (JNative T_Recv, Attr_None),
            ''$send'' \<mapsto> (JNative T_Send, Attr_None),
            ''$sendSync'' \<mapsto> (JNative T_SendSync, Attr_None),
            ''$recvSync'' \<mapsto> (JNative T_RecvSync, Attr_None)] \<and>
         dom (globals s' (globals_next s)) =
           {''$context'', ''$print'', ''$recv'', ''$send'', ''$sendSync'', ''$recvSync''} \<and>
         Global_Get s' (globals_next s) ''$context'' = JInteger (contextIndex (worker s)) \<and>
         (\<forall>v. Global_Get (Global_Assign s' (globals_next s) ''$context'' v) (globals_next s) ''$context'' = v)"
proof -
  from assms have ok: "contextIndex (worker s) \<noteq> INT32_MAX"
    by (auto simp: context_new_overflow)
  from assms [unfolded context_new_Inr [OF ok]] have c: "c = heap_next s" and
    s': "s' = s\<lparr>globals := (globals s)(globals_next s :=
                 [''$context'' \<mapsto> (JInteger (contextIndex (worker s)), Attr_None),
                  ''$print'' \<mapsto> (JNative T_Print, Attr_None),
                  ''$recv'' \<mapsto> (JNative T_Recv, Attr_None),
                  ''$send'' \<mapsto> (JNative T_Send, Attr_None),
                  ''$sendSync'' \<mapsto> (JNative T_SendSync, Attr_None),
                  ''$recvSync'' \<mapsto> (JNative T_RecvSync, Attr_None)]),
            inherited := (inherited s)(globals_next s := Map.empty),
            globals_next := globals_next s + 1,
            heap := (heap s)(heap_next s \<mapsto>
                 \<lparr>c_id = contextIndex (worker s), c_data = data, c_context = Some (globals_next s),
                  c_cb = cb, c_req_cb = recvSync_cb, c_recv = None, c_recv_sync_handler = None\<rparr>),
            heap_next := heap_next s + 1,
            persistent := insert (heap_next s, P_context) (persistent s),
            worker := (worker s)
               \<lparr>contexts := map_insert (contexts (worker s)) (contextIndex (worker s)) (heap_next s),
                contextIndex := contextIndex (worker s) + 1\<rparr>\<rparr>"
    by auto
  have g: "globals s' (globals_next s) =
           [''$context'' \<mapsto> (JInteger (contextIndex (worker s)), Attr_None),
            ''$print'' \<mapsto> (JNative T_Print, Attr_None),
            ''$recv'' \<mapsto> (JNative T_Recv, Attr_None),
            ''$send'' \<mapsto> (JNative T_Send, Attr_None),
            ''$sendSync'' \<mapsto> (JNative T_SendSync, Attr_None),
            ''$recvSync'' \<mapsto> (JNative T_RecvSync, Attr_None)]"
    by (simp add: s')
  have d: "dom (globals s' (globals_next s)) =
           {''$context'', ''$print'', ''$recv'', ''$send'', ''$sendSync'', ''$recvSync''}"
    unfolding g by auto
  have e: "globals s' (globals_next s) ''$context'' = Some (JInteger (contextIndex (worker s)), Attr_None)"
    unfolding g by simp
  have w: "Global_Get (Global_Assign s' (globals_next s) ''$context'' v) (globals_next s) ''$context'' = v" for v
    by (simp add: Global_Assign_def Global_Get_def e)
  have h: "heap s' c = Some \<lparr>c_id = contextIndex (worker s), c_data = data,
                           c_context = Some (globals_next s), c_cb = cb, c_req_cb = recvSync_cb,
                           c_recv = None, c_recv_sync_handler = None\<rparr>"
    by (simp add: s' c)
  have i: "contextIndex (worker s') = contextIndex (worker s) + 1" "globals_next s' = globals_next s + 1"
    by (simp_all add: s')
  have r: "Global_Get s' (globals_next s) ''$context'' = JInteger (contextIndex (worker s))"
    by (simp add: Global_Get_def e)
  from h i g d r w show ?thesis by blast
qed

theorem context_new_installs_witness:
  "heap one_context 0 = Some (sample_record 0 0) \<and>
   contextIndex (worker one_context) = 1 \<and>
   dom (globals one_context 0) = {''$context'', ''$print'', ''$recv'', ''$send'', ''$sendSync'', ''$recvSync''} \<and>
   Global_Get one_context 0 ''$context'' = JInteger 0"
proof -
  note inst = context_new_installs [OF one_context_eq]
  from inst have "heap one_context 0 = Some (sample_record 0 0)"
    by (simp add: worker_new_def sample_record_def)
  moreover from inst have "contextIndex (worker one_context) = 1"
    by (simp add: worker_new_def)
  moreover from inst [THEN conjunct2, THEN conjunct2, THEN conjunct2, THEN conjunct2, THEN conjunct1]
  have "dom (globals one_context 0) =
      {''$context'', ''$print'', ''$recv'', ''$send'', ''$sendSync'', ''$recvSync''}"
    by (simp only: worker_new_def State.simps)
  moreover from inst have "Global_Get one_context 0 ''$context'' = JInteger 0"
    by (simp add: worker_new_def)
  ultimately show ?thesis by blast
qed

text \<open>
  The identity field is not read-only: in the context just created, the script's
  assignment \<open>$context = 41\<close> changes the value from 0 to 41.
\<close>

theorem identity_field_writable:
  "globals one_context 0 ''$context'' = Some (JInteger 0, Attr_None) \<and>
   run_guest sample_engine one_context 0 [Assign ''$context'' (JInteger 41)]
     = Inr (Global_Assign one_context 0 ''$context'' (JInteger 41)) \<and>
   Global_Get (Global_Assign one_context 0 ''$context'' (JInteger 41)) 0 ''$context'' = JInteger 41"
  by (simp add: guest_step_def Global_Assign_def Global_Get_def one_context_global)

subsection \<open>Context ids\<close>

lemma run_lifecycle_ids:
  "run_lifecycle s calls = Inr (ids, s') \<Longrightarrow>
   ids = map (\<lambda>k. contextIndex (worker s) + int k) [0..<length ids] \<and>
   contextIndex (worker s') = contextIndex (worker s) + int (length ids)"
proof (induction s calls arbitrary: ids rule: run_lifecycle.induct)
  case (1 s)
  then show ?case by simp
next
  case (2 s cb recvSync_cb data calls)
  from "2.prems" obtain c s1 r rest where
    new: "context_new s cb recvSync_cb data = Inr (c, s1)" and
    rec: "heap s1 c = Some r" and
    run: "run_lifecycle s1 calls = Inr (rest, s')" and
    ids: "ids = c_id r # rest"
    by (auto split: sum.splits option.splits prod.splits)
  from "2.IH" [OF new refl rec run]
  have ih: "rest = map (\<lambda>k. contextIndex (worker s1) + int k) [0..<length rest]"
    "contextIndex (worker s') = contextIndex (worker s1) + int (length rest)"
    by simp_all
  note step = context_new_id [OF new rec]
  have "map (\<lambda>k. contextIndex (worker s) + int k) [0..<length ids] =
        contextIndex (worker s) # map (\<lambda>k. contextIndex (worker s) + 1 + int k) [0..<length rest]"
    by (simp add: ids map_upt_Suc del: upt_Suc)
  with ih step ids show ?case by simp
next
  case (3 s c calls)
  from "3.prems" obtain s1 where
    d: "context_dispose s c = Inr s1" and run: "run_lifecycle s1 calls = Inr (ids, s')"
    by (auto split: sum.splits)
  from "3.IH" [OF d run] context_dispose_worker [OF d] show ?case by simp
qed

text \<open>
  C6.  For every sequence of \<open>context_new\<close> and \<open>context_dispose\<close> calls that runs to its
  end, the ids of the contexts created are consecutive integers starting at the value the
  counter had before the sequence: the k-th context created has id counter + k, whether or
  not contexts were disposed in between.  So the ids are pairwise distinct, none is
  assigned twice, and the counter ends above all of them.
\<close>

theorem context_ids_dense_and_fresh:
  assumes "run_lifecycle s calls = Inr (ids, s')"
  shows "(\<forall>k < length ids. ids ! k = contextIndex (worker s) + int k) \<and>
         contextIndex (worker s') = contextIndex (worker s) + int (length ids) \<and>
         distinct ids \<and>
         (\<forall>i \<in> set ids. contextIndex (worker s) \<le> i \<and> i < contextIndex (worker s'))"
proof -
  from run_lifecycle_ids [OF assms]
  have ids: "ids = map (\<lambda>k. contextIndex (worker s) + int k) [0..<length ids]"
    and idx: "contextIndex (worker s') = contextIndex (worker s) + int (length ids)"
    by simp_all
  have nth: "ids ! k = contextIndex (worker s) + int k" if "k < length ids" for k
  proof -
    have "ids ! k = map (\<lambda>k. contextIndex (worker s) + int k) [0..<length ids] ! k"
      using ids by simp
    also have "\<dots> = contextIndex (worker s) + int k"
      using that by simp
    finally show ?thesis .
  qed
  have "distinct (map (\<lambda>k. contextIndex (worker s) + int k) [0..<length ids])"
    by (simp add: distinct_map inj_on_def)
  with ids have dist: "distinct ids" by simp
  have range: "contextIndex (worker s) \<le> i \<and> i < contextIndex (worker s')" if "i \<in> set ids" for i
  proof -
    from that obtain k where "k < length ids" "ids ! k = i"
      by (auto simp: in_set_conv_nth)
    with nth idx show ?thesis by auto
  qed
  from nth idx dist range show ?thesis by blast
qed

theorem context_ids_dense_and_fresh_witness:
  "fst (projr (run_lifecycle (worker_new 0)
                 [Create 11 12 13, Create 11 12 13, Dispose 0, Create 11 12 13])) = [0, 1, 2] \<and>
   contextIndex (worker (snd (projr (run_lifecycle (worker_new 0)
                 [Create 11 12 13, Create 11 12 13, Dispose 0, Create 11 12 13])))) = 3"
proof -
  define s3 where "s3 = two_contexts\<lparr>heap := [1 \<mapsto> sample_record 1 1],
                                      persistent := persistent two_contexts - {(0, P_context)}\<rparr>"
  have d: "context_dispose two_contexts 0 = Inr s3"
    by (simp add: context_dispose_def two_contexts_heap s3_def Let_def fun_upd_twist)
  have "contextIndex (worker s3) \<noteq> INT32_MAX"
    by (simp add: s3_def two_contexts_worker INT32_MAX_def)
  then obtain s4 r where n: "context_new s3 11 12 13 = Inr (heap_next s3, s4)"
    and r: "heap s4 (heap_next s3) = Some r" "c_id r = contextIndex (worker s3)"
    by (rule context_new_returns)
  have i3: "contextIndex (worker s3) = 2"
    by (simp add: s3_def two_contexts_worker)
  have run: "run_lifecycle (worker_new 0)
                 [Create 11 12 13, Create 11 12 13, Dispose 0, Create 11 12 13] = Inr ([0, 1, 2], s4)"
    by (simp add: one_context_eq one_context_heap two_contexts_eq two_contexts_heap d n r i3
        sample_record_def)
  from context_ids_dense_and_fresh [OF run] have "contextIndex (worker s4) = 3"
    by (simp add: worker_new_def)
  with run show ?thesis by simp
qed

subsection \<open>Loading a script\<close>

text \<open>
  C8.  For a live context \<open>c\<close>, \<open>worker_load\<close> returns 1 when the compilation fails, 0 when
  compilation and run both succeed, and 2 when the run ends with an uncaught exception.  It
  returns no other status, and with every non-zero status the last-exception slot holds
  the formatted text of the exception caught at that failure.
\<close>

theorem worker_load_status:
  assumes "enter_context s c = Inr (r, ctx)"
  shows "(\<forall>tc. script (Compile E name source) = None \<and>
              compile_try_catch (Compile E name source) = Some tc \<longrightarrow>
            worker_load E s c name source = Inr (1, set_last_exception (ExceptionString tc) s)) \<and>
         (\<forall>run s'. script (Compile E name source) = Some run \<and>
              run_guest E s ctx (effects run) = Inr s' \<longrightarrow>
            (\<forall>v. result run = Some v \<longrightarrow> worker_load E s c name source = Inr (0, s')) \<and>
            (\<forall>tc. result run = None \<and> try_catch run = Some tc \<longrightarrow>
               worker_load E s c name source = Inr (2, set_last_exception (ExceptionString tc) s'))) \<and>
         (\<forall>status s''. worker_load E s c name source = Inr (status, s'') \<longrightarrow>
            status \<in> {0, 1, 2} \<and>
            (status \<noteq> 0 \<longrightarrow>
               (\<exists>tc. (compile_try_catch (Compile E name source) = Some tc \<or>
                       (\<exists>run. script (Compile E name source) = Some run \<and> try_catch run = Some tc)) \<and>
                     worker_last_exception s'' = ExceptionString tc)))"
  using assms
  by (auto simp: worker_load_def Let_def set_last_exception_def worker_last_exception_def
      split: option.splits sum.splits)

theorem worker_load_status_witness:
  "worker_load sample_engine one_context 0 ''main.js'' ''var =''
     = Inr (1, set_last_exception (''Error: boom'' @ newline) one_context) \<and>
   worker_load sample_engine one_context 0 ''main.js'' ''throw new Error()''
     = Inr (2, set_last_exception (''Error: boom'' @ newline) one_context) \<and>
   worker_load sample_engine one_context 0 ''main.js'' ''$recv(f10); $recvSync(f20)''
     = Inr (0, loaded)"
proof -
  have a: "worker_load sample_engine one_context 0 ''main.js'' ''var =''
     = Inr (1, set_last_exception (''Error: boom'' @ newline) one_context)"
    using worker_load_status [OF one_context_enter, of sample_engine "''main.js''" "''var =''"]
    by (simp add: sample_compile sample_caught_text)
  have b: "worker_load sample_engine one_context 0 ''main.js'' ''throw new Error()''
     = Inr (2, set_last_exception (''Error: boom'' @ newline) one_context)"
    using worker_load_status [OF one_context_enter, of sample_engine "''main.js''" "''throw new Error()''"]
    by (simp add: sample_compile sample_caught_text)
  have c: "worker_load sample_engine one_context 0 ''main.js'' ''$recv(f10); $recvSync(f20)''
     = Inr (0, loaded)"
    using worker_load_status [OF one_context_enter, of sample_engine "''main.js''" "''$recv(f10); $recvSync(f20)''"]
    by (simp add: sample_compile one_context_register loaded_state del: run_guest.simps)
  from a b c show ?thesis by simp
qed

subsection \<open>The last-exception slot\<close>

text \<open>
  C9.  The last-exception slot changes only when \<open>worker_load\<close> or \<open>worker_send\<close> returns a
  non-zero status.  \<open>worker_sendSync\<close> leaves it as it was on every path on which it
  returns, the sentinel results included; \<open>worker_load\<close> and \<open>worker_send\<close> leave it as it
  was when they return 0; creating and disposing a context leave it as it was; and
  \<open>worker_last_exception\<close> only reads it.  So the slot keeps the text of the latest failing
  load or send.
\<close>

theorem last_exception_frame:
  "(\<forall>out s'. worker_sendSync E s c msg = Inr (out, s') \<longrightarrow>
       worker_last_exception s' = worker_last_exception s) \<and>
   (\<forall>s'. worker_load E s c name source = Inr (0, s') \<longrightarrow>
       worker_last_exception s' = worker_last_exception s) \<and>
   (\<forall>s'. worker_send E s c msg = Inr (0, s') \<longrightarrow>
       worker_last_exception s' = worker_last_exception s) \<and>
   (\<forall>a s'. context_new s cb recvSync_cb data = Inr (a, s') \<longrightarrow>
       worker_last_exception s' = worker_last_exception s) \<and>
   (\<forall>s'. context_dispose s c = Inr s' \<longrightarrow>
       worker_last_exception s' = worker_last_exception s) \<and>
   worker_last_exception s = last_exception (worker s)"
proof (intro conjI allI impI)
  fix out s' assume "worker_sendSync E s c msg = Inr (out, s')"
  then show "worker_last_exception s' = worker_last_exception s"
    by (auto simp: worker_sendSync_def Let_def worker_last_exception_def
        split: sum.splits option.splits if_splits prod.splits dest: run_guest_worker)
next
  fix s' assume "worker_load E s c name source = Inr (0, s')"
  then show "worker_last_exception s' = worker_last_exception s"
    by (auto simp: worker_load_def Let_def worker_last_exception_def
        split: sum.splits option.splits if_splits prod.splits dest: run_guest_worker)
next
  fix s' assume "worker_send E s c msg = Inr (0, s')"
  then show "worker_last_exception s' = worker_last_exception s"
    by (auto simp: worker_send_def Let_def worker_last_exception_def
        split: sum.splits option.splits if_splits prod.splits dest: run_guest_worker)
next
  fix a s' assume "context_new s cb recvSync_cb data = Inr (a, s')"
  then show "worker_last_exception s' = worker_last_exception s"
    by (simp add: worker_last_exception_def context_new_last_exception)
next
  fix s' assume "context_dispose s c = Inr s'"
  then show "worker_last_exception s' = worker_last_exception s"
    by (auto simp: worker_last_exception_def dest: context_dispose_Inr)
next
  show "worker_last_exception s = last_exception (worker s)"
    by (simp add: worker_last_exception_def)
qed

theorem last_exception_frame_witness:
  "worker_last_exception
     (snd (projr (worker_sendSync sample_engine (set_last_exception ''old'' one_context) 0 ''abc'')))
     = ''old'' \<and>
   worker_last_exception
     (snd (projr (worker_send sample_engine (set_last_exception ''old'' loaded) 0 ''ping'')))
     = ''old'' \<and>
   worker_last_exception
     (snd (projr (worker_load sample_engine (set_last_exception ''old'' one_context) 0
                    ''main.js'' ''$recv(f10); $recvSync(f20)'')))
     = ''old'' \<and>
   worker_last_exception
     (snd (projr (context_new (set_last_exception ''old'' one_context) 11 12 13)))
     = ''old'' \<and>
   worker_last_exception
     (projr (context_dispose (set_last_exception ''old'' one_context) 0))
     = ''old''"
proof -
  let ?s = "set_last_exception ''old'' one_context"
  let ?t = "set_last_exception ''old'' loaded"
  note frame_s = last_exception_frame [where E = sample_engine and s = ?s and c = 0]
  have "worker_sendSync sample_engine ?s 0 ''abc'' = Inr (Dangling ''err: $recvSync not called'', ?s)"
    by (simp add: worker_sendSync_def one_context_enter sample_record_def c_str_def)
  with frame_s [where msg = "''abc''"]
  have a: "worker_last_exception
     (snd (projr (worker_sendSync sample_engine ?s 0 ''abc''))) = ''old''"
    by (simp add: worker_last_exception_def)
  have "heap ?t 0 = Some ((sample_record 0 0)\<lparr>c_recv := Some (JFunction 10),
                                       c_recv_sync_handler := Some (JFunction 20)\<rparr>)"
    by (simp add: loaded_state)
  from Send_delivered [of sample_engine ?t 0 0, OF _ this, of "''ping''"]
  have "worker_send sample_engine ?t 0 ''ping'' =
          Inr (0, ?t\<lparr>host_calls := host_calls ?t @ [(11, ''ping'', 13)]\<rparr>)"
    by (simp add: worker_send_def loaded_enter sample_call loaded_current sample_record_def
        del: run_guest.simps)
  with last_exception_frame [where E = sample_engine and s = ?t and c = 0 and msg = "''ping''"]
  have b: "worker_last_exception
     (snd (projr (worker_send sample_engine ?t 0 ''ping''))) = ''old''"
    by (simp add: worker_last_exception_def)
  have cur: "current_context sample_engine ?s 0 = Some 0"
    by (simp add: one_context_current)
  have rec: "heap ?s 0 = Some (sample_record 0 0)"
    by (simp add: one_context_heap)
  from register_both [OF cur rec, of 10 20]
  have "worker_load sample_engine ?s 0 ''main.js'' ''$recv(f10); $recvSync(f20)'' =
          Inr (0, ?s\<lparr>heap := (heap ?s)(0 \<mapsto> (sample_record 0 0)\<lparr>c_recv := Some (JFunction 10),
                                       c_recv_sync_handler := Some (JFunction 20)\<rparr>),
                       persistent := insert (0, P_recv_sync_handler) (insert (0, P_recv) (persistent ?s))\<rparr>)"
    by (simp add: worker_load_def one_context_enter sample_compile del: run_guest.simps)
  with frame_s [where name = "''main.js''" and source = "''$recv(f10); $recvSync(f20)''"]
  have c: "worker_last_exception
     (snd (projr (worker_load sample_engine ?s 0 ''main.js'' ''$recv(f10); $recvSync(f20)''))) = ''old''"
    by (simp add: worker_last_exception_def)
  have "contextIndex (worker ?s) \<noteq> INT32_MAX"
    by (simp add: set_last_exception_def one_context_worker INT32_MAX_def)
  then obtain s1 where "context_new ?s 11 12 13 = Inr (heap_next ?s, s1)"
    by (rule context_new_returns)
  with frame_s [where cb = 11 and recvSync_cb = 12 and data = 13]
  have d: "worker_last_exception (snd (projr (context_new ?s 11 12 13))) = ''old''"
    by (simp add: worker_last_exception_def)
  have "context_dispose ?s 0 = Inr (?s\<lparr>heap := (heap ?s)(0 := None),
                                        persistent := persistent ?s - {(0, P_context)}\<rparr>)"
    by (simp add: context_dispose_def Let_def one_context_heap)
  with frame_s
  have e: "worker_last_exception (projr (context_dispose ?s 0)) = ''old''"
    by (simp add: worker_last_exception_def)
  from a b c d e show ?thesis by simp
qed

subsection \<open>Argument checks of the native functions\<close>

text \<open>
  C10.  The native functions check the type of their first argument with an assertion:
  the two registration functions stop the process (\<open>AssertionFailed\<close>) when the first
  argument is not a function, the two sending functions when it is not a string; this
  holds whatever the state and the calling context are.  No error value is returned to the
  script and nothing is thrown into it: a script that makes such a call, after any
  operations that went through, ends there, and none of its later operations runs.
\<close>

theorem intrinsics_assert_argument_type:
  "(\<not> IsFunction (arg0 args) \<longrightarrow>
      Recv E s ctx args = Inl AssertionFailed \<and> RecvSync E s ctx args = Inl AssertionFailed) \<and>
   (\<not> IsString (arg0 args) \<longrightarrow>
      Send E s ctx args = Inl AssertionFailed \<and> SendSync E s ctx args = Inl AssertionFailed) \<and>
   (\<forall>before after s0 f.
      run_guest E s0 ctx before = Inr s \<and>
      (f \<in> {T_Recv, T_RecvSync} \<and> \<not> IsFunction (arg0 args) \<or>
       f \<in> {T_Send, T_SendSync} \<and> \<not> IsString (arg0 args)) \<longrightarrow>
      run_guest E s0 ctx (before @ Invoke f args # after) = Inl AssertionFailed)"
proof -
  have fun_arg: "Recv E s ctx args = Inl AssertionFailed" "RecvSync E s ctx args = Inl AssertionFailed"
    if "\<not> IsFunction (arg0 args)" for s
    using that by (simp_all add: Recv_def RecvSync_def Let_def)
  have str_arg: "Send E s ctx args = Inl AssertionFailed" "SendSync E s ctx args = Inl AssertionFailed"
    if "\<not> IsString (arg0 args)" for s
    using that by (simp_all add: Send_def SendSync_def Let_def)
  have run: "run_guest E s0 ctx (before @ Invoke f args # after) = Inl AssertionFailed"
    if "run_guest E s0 ctx before = Inr s"
      and "f \<in> {T_Recv, T_RecvSync} \<and> \<not> IsFunction (arg0 args) \<or>
           f \<in> {T_Send, T_SendSync} \<and> \<not> IsString (arg0 args)"
    for before after s0 f
  proof -
    from that(2) have "guest_step E s ctx (Invoke f args) = Inl AssertionFailed"
      by (auto simp: guest_step_def fun_arg str_arg)
    with that(1) show ?thesis by (simp add: run_guest_append)
  qed
  from fun_arg str_arg run show ?thesis by blast
qed

theorem intrinsics_assert_argument_type_witness:
  "Recv sample_engine one_context 0 [JString ''f''] = Inl AssertionFailed \<and>
   RecvSync sample_engine one_context 0 [] = Inl AssertionFailed \<and>
   Send sample_engine one_context 0 [JInteger 5] = Inl AssertionFailed \<and>
   SendSync sample_engine one_context 0 [JFunction 10] = Inl AssertionFailed \<and>
   run_guest sample_engine one_context 0
     [Invoke T_Print [], Invoke T_Recv [JInteger 5], Invoke T_Print []] = Inl AssertionFailed"
proof -
  note t = intrinsics_assert_argument_type [where E = sample_engine and ctx = 0]
  have a: "Recv sample_engine one_context 0 [JString ''f''] = Inl AssertionFailed"
    using t [where args = "[JString ''f'']" and s = one_context]
    by (simp add: IsFunction_def arg0_def)
  have b: "RecvSync sample_engine one_context 0 [] = Inl AssertionFailed"
    using t [where args = "[]" and s = one_context]
    by (simp add: IsFunction_def arg0_def)
  have c: "Send sample_engine one_context 0 [JInteger 5] = Inl AssertionFailed"
    using t [where args = "[JInteger 5]" and s = one_context]
    by (simp add: IsString_def arg0_def)
  have d: "SendSync sample_engine one_context 0 [JFunction 10] = Inl AssertionFailed"
    using t [where args = "[JFunction 10]" and s = one_context]
    by (simp add: IsString_def arg0_def)
  let ?s = "one_context\<lparr>stdout_s := stdout_s one_context @ newline\<rparr>"
  have pre: "run_guest sample_engine one_context 0 [Invoke T_Print []] = Inr ?s"
    by (simp add: guest_step_def Print_def)
  have "run_guest sample_engine one_context 0
          ([Invoke T_Print []] @ Invoke T_Recv [JInteger 5] # [Invoke T_Print []]) = Inl AssertionFailed"
    using t [where args = "[JInteger 5]" and s = ?s, THEN conjunct2, THEN conjunct2, rule_format,
        where before = "[Invoke T_Print []]" and ?s0.0 = one_context and f = T_Recv
          and after = "[Invoke T_Print []]"] pre
    by (simp add: IsFunction_def arg0_def del: run_guest.simps)
  then have e: "run_guest sample_engine one_context 0
     [Invoke T_Print [], Invoke T_Recv [JInteger 5], Invoke T_Print []] = Inl AssertionFailed"
    by simp
  from a b c d e show ?thesis by simp
qed

end
